theory Spec2Isabelle
  imports Complex_Main "HOL-Library.Sublist" "HOL-Library.Log_Nat"
begin

section \<open>Python strings\<close>

text \<open>
  A Python \<open>str\<close> is a sequence of Unicode code points. A code point is modelled by its
  number, so that the separators and white space beyond Latin-1 (for instance U+2028) are
  part of the model. \<open>U\<close> reads an ASCII literal of the source as such a string.
\<close>

type_synonym ustring = "nat list"

definition U :: "string \<Rightarrow> ustring" where
  "U s = map of_char s"

definition LF :: nat where "LF = 10"
definition CR :: nat where "CR = 13"

text \<open>
  The line boundaries of \<open>str.splitlines\<close>: LF, VT, FF, CR, FS, GS, RS, NEL, LS and PS
  (CPython, \<open>_PyUnicode_IsLinebreak\<close>).
\<close>

definition is_linebreak :: "nat \<Rightarrow> bool" where
  "is_linebreak c \<longleftrightarrow> c \<in> set [10, 11, 12, 13, 28, 29, 30, 133, 8232, 8233]"

text \<open>
  The white space of \<open>str.strip\<close> and \<open>str.isspace\<close> (CPython,
  \<open>_PyUnicode_IsWhitespace\<close>).
\<close>

definition is_whitespace :: "nat \<Rightarrow> bool" where
  "is_whitespace c \<longleftrightarrow>
     (9 \<le> c \<and> c \<le> 13) \<or> (28 \<le> c \<and> c \<le> 32) \<or> c = 133 \<or> c = 160 \<or> c = 5760 \<or>
     (8192 \<le> c \<and> c \<le> 8202) \<or> c = 8232 \<or> c = 8233 \<or> c = 8239 \<or> c = 8287 \<or> c = 12288"

text \<open>
  \<open>str.splitlines()\<close> (CPython, \<open>stringlib/split.h\<close>): scan to the next line boundary,
  emit the line without the boundary, skip the boundary reading CR LF as one; stop at the
  end of the text, so a text that ends with a boundary has no empty last line and the
  empty text has no line. \<open>cur\<close> is the line being scanned, in reverse.
\<close>

fun splitlines_from :: "ustring \<Rightarrow> ustring \<Rightarrow> ustring list" where
  "splitlines_from cur [] = (if cur = [] then [] else [rev cur])"
| "splitlines_from cur (c # s) =
     (if is_linebreak c
      then (case s of
              d # s' \<Rightarrow> (if c = CR \<and> d = LF then rev cur # splitlines_from [] s'
                         else rev cur # splitlines_from [] s)
            | [] \<Rightarrow> rev cur # splitlines_from [] s)
      else splitlines_from (c # cur) s)"

definition splitlines :: "ustring \<Rightarrow> ustring list" where
  "splitlines s = splitlines_from [] s"

text \<open>\<open>str.strip()\<close>: drop the white space at both ends.\<close>

definition strip :: "ustring \<Rightarrow> ustring" where
  "strip s = rev (dropWhile is_whitespace (rev (dropWhile is_whitespace s)))"

text \<open>\<open>sep.join(xs)\<close>.\<close>

fun join :: "ustring \<Rightarrow> ustring list \<Rightarrow> ustring" where
  "join sep [] = []"
| "join sep [x] = x"
| "join sep (x # y # ys) = x @ sep @ join sep (y # ys)"

text \<open>\<open>s.startswith(p)\<close>.\<close>

definition startswith :: "ustring \<Rightarrow> ustring \<Rightarrow> bool" where
  "startswith s p \<longleftrightarrow> prefix p s"

text \<open>\<open>p in s\<close> for strings: \<open>p\<close> occurs in \<open>s\<close> as a contiguous substring.\<close>

definition contains :: "ustring \<Rightarrow> ustring \<Rightarrow> bool" where
  "contains s p \<longleftrightarrow> sublist p s"

text \<open>
  Splitting on the character LF alone, as the specification words the renderer's line
  splitting (\<open>s.split('\n')\<close>): every LF ends a line, nothing else does, and the text
  after the last LF is a line even when it is empty. This is the reference the
  source's \<open>splitlines\<close> is compared with.
\<close>

fun split_on_newline_from :: "ustring \<Rightarrow> ustring \<Rightarrow> ustring list" where
  "split_on_newline_from cur [] = [rev cur]"
| "split_on_newline_from cur (c # s) =
     (if c = LF then rev cur # split_on_newline_from [] s
      else split_on_newline_from (c # cur) s)"

definition split_on_newline :: "ustring \<Rightarrow> ustring list" where
  "split_on_newline s = split_on_newline_from [] s"


text \<open>\<open>str(i)\<close> for an integer: its decimal digits, with a minus sign when negative.\<close>

function digits_of :: "nat \<Rightarrow> ustring" where
  "digits_of n = (if n < 10 then [48 + n] else digits_of (n div 10) @ [48 + n mod 10])"
  by pat_completeness auto
termination
  by (relation "measure id") auto

definition str_int :: "int \<Rightarrow> ustring" where
  "str_int i = (if i < 0 then 45 # digits_of (nat (- i)) else digits_of (nat i))"

text \<open>\<open>a or b\<close> on strings: \<open>b\<close> when \<open>a\<close> is empty.\<close>

definition str_or :: "ustring \<Rightarrow> ustring \<Rightarrow> ustring" where
  "str_or a b = (if a = [] then b else a)"

subsection \<open>\<open>textwrap.dedent\<close>\<close>

text \<open>
  \<open>textwrap.dedent\<close> as CPython has it up to version 3.13:
  \<^enum> every line made of spaces and tabs only is emptied (the substitution of
    \<^verbatim>\<open>^[ \t]+$\<close>);
  \<^enum> the indentation of every line that has another character is collected (the matches
    of \<^verbatim>\<open>(^[ \t]*)(?:[^ \t\n])\<close>);
  \<^enum> the margin is folded over them: the first one, then at each step the shorter of the
    two when one is a prefix of the other, and their common prefix otherwise;
  \<^enum> a non-empty margin is removed from the start of every line that has it.
  Lines are the pieces between LF characters.
\<close>

definition is_blank :: "nat \<Rightarrow> bool" where
  "is_blank c \<longleftrightarrow> c = 32 \<or> c = 9"

definition whitespace_only :: "ustring \<Rightarrow> bool" where
  "whitespace_only l \<longleftrightarrow> l \<noteq> [] \<and> list_all is_blank l"

definition empty_whitespace_only :: "ustring \<Rightarrow> ustring" where
  "empty_whitespace_only l = (if whitespace_only l then [] else l)"

definition leading_whitespace :: "ustring list \<Rightarrow> ustring list" where
  "leading_whitespace ls = map (takeWhile is_blank) (filter (\<lambda>l. \<not> list_all is_blank l) ls)"

fun margin_step :: "ustring option \<Rightarrow> ustring \<Rightarrow> ustring option" where
  "margin_step None indent = Some indent"
| "margin_step (Some margin) indent =
     (if prefix margin indent then Some margin
      else if prefix indent margin then Some indent
      else Some (longest_common_prefix margin indent))"

definition remove_margin :: "ustring \<Rightarrow> ustring \<Rightarrow> ustring" where
  "remove_margin margin l = (if prefix margin l then drop (length margin) l else l)"

definition dedent :: "ustring \<Rightarrow> ustring" where
  "dedent text =
     (let ls = map empty_whitespace_only (split_on_newline text)
      in case foldl margin_step None (leading_whitespace ls) of
           None \<Rightarrow> join [LF] ls
         | Some margin \<Rightarrow>
             if margin \<noteq> [] then join [LF] (map (remove_margin margin) ls) else join [LF] ls)"

text \<open>
  The first step of \<open>dedent\<close> on its own, and the texts it leaves as they are after
  their first line: those where no later line is made of spaces and tabs only.
\<close>

definition blanked :: "ustring \<Rightarrow> ustring" where
  "blanked t = join [LF] (map empty_whitespace_only (split_on_newline t))"

definition keeps_its_lines :: "ustring \<Rightarrow> bool" where
  "keeps_its_lines t \<longleftrightarrow> list_all (\<lambda>l. \<not> whitespace_only l) (tl (split_on_newline t))"

section \<open>Session state\<close>

text \<open>
  \<open>st.session_state\<close> is a dictionary from key names to Python values; the values the
  program stores are strings, integers, lists of strings and \<open>None\<close>.
\<close>

datatype pyval = PStr ustring | PInt int | PList "ustring list" | PNone

type_synonym session = "string \<rightharpoonup> pyval"

definition setdefault :: "string \<Rightarrow> pyval \<Rightarrow> session \<Rightarrow> session" where
  "setdefault k v s = (if k \<in> dom s then s else s(k \<mapsto> v))"

definition init_state :: "session \<Rightarrow> session" where
  "init_state s =
     (setdefault ''plan_md'' (PStr [])
     (setdefault ''ages'' (PStr [])
     (setdefault ''num_people'' (PInt 1)
     (setdefault ''daily_budget'' (PInt 300)
     (setdefault ''guardrails'' (PStr [])
     (setdefault ''interests'' (PList [])
     (setdefault ''days'' (PInt 3)
     (setdefault ''cities'' (PStr []) s))))))))"

definition clear :: "session \<Rightarrow> session" where
  "clear s = Map.empty"

definition reset_all :: "session \<Rightarrow> session" where
  "reset_all s = init_state (clear s)"

section \<open>Exceptions\<close>

text \<open>
  Modelled from the spec: the client library of the external generation service is not
  part of the repository; the ways its call can fail are the four the specification
  names (network, authentication, quota or rate limit, malformed response).
\<close>

datatype api_failure = NetworkFailure | AuthFailure | QuotaFailure | MalformedResponse

datatype exn =
    KeyError | AttributeError | TypeError | IndexError | OverflowError | ValueError
  | ApiError api_failure

definition and_then :: "exn + 'a \<Rightarrow> ('a \<Rightarrow> exn + 'b) \<Rightarrow> exn + 'b" where
  "and_then r f = (case r of Inl e \<Rightarrow> Inl e | Inr v \<Rightarrow> f v)"

section \<open>Document renderer\<close>

text \<open>
  The flowables of the PDF library are data here: a paragraph with its text and style, a
  spacer with its width and height, a bulleted list with its items.
\<close>

datatype style = BodyText | H2 | Title | Normal

datatype flowable =
    Paragraph ustring style
  | Spacer int int
  | ListItem flowable
  | ListFlowable "flowable list"

text \<open>
  The library's \<open>Paragraph\<close> parses its text as markup when it is constructed, and raises
  \<open>ValueError\<close> on a text it cannot parse (one that opens a tag and never closes it, for
  instance). The library is not part of the repository, so its parser is a parameter of
  the model: the predicate \<open>accepts\<close>, which holds of the texts the parser can parse.
\<close>

definition new_paragraph :: "(ustring \<Rightarrow> bool) \<Rightarrow> ustring \<Rightarrow> style \<Rightarrow> exn + flowable" where
  "new_paragraph accepts txt st = (if accepts txt then Inr (Paragraph txt st) else Inl ValueError)"

text \<open>The body of the loop of \<open>markdown_to_flowables\<close> without the spacer: one line, one block.\<close>

definition line_block :: "(ustring \<Rightarrow> bool) \<Rightarrow> ustring \<Rightarrow> exn + flowable" where
  "line_block accepts line =
     (if startswith line (U ''## '') then new_paragraph accepts (drop 3 line) H2
      else if startswith line (U ''- '') then
        and_then (new_paragraph accepts (drop 2 line) BodyText) (\<lambda>item. Inr (ListFlowable [ListItem item]))
      else new_paragraph accepts (if line = [] then U '' '' else line) BodyText)"

text \<open>The loop: the first line whose paragraph cannot be built ends it with the exception.\<close>

fun flow_lines :: "(ustring \<Rightarrow> bool) \<Rightarrow> ustring list \<Rightarrow> exn + flowable list" where
  "flow_lines accepts [] = Inr []"
| "flow_lines accepts (line # ls) =
     and_then (line_block accepts line) (\<lambda>block.
     and_then (flow_lines accepts ls) (\<lambda>rest. Inr (block # Spacer 1 4 # rest)))"

definition markdown_to_flowables :: "(ustring \<Rightarrow> bool) \<Rightarrow> ustring \<Rightarrow> exn + flowable list" where
  "markdown_to_flowables accepts md_text = flow_lines accepts (splitlines md_text)"

text \<open>
  The story \<open>write_pdf\<close> hands to \<open>doc.build\<close>, or the exception raised while it is put
  together; \<open>now\<close> is the formatted clock reading.
\<close>

definition write_pdf_story :: "(ustring \<Rightarrow> bool) \<Rightarrow> ustring \<Rightarrow> ustring \<Rightarrow> exn + flowable list" where
  "write_pdf_story accepts now markdown_text =
     and_then (new_paragraph accepts (U ''AI Travel Guide Plan'') Title) (\<lambda>title.
     and_then (new_paragraph accepts (U ''Generated: '' @ now) Normal) (\<lambda>meta.
     and_then (markdown_to_flowables accepts markdown_text) (\<lambda>body.
       Inr ([title, Spacer 1 10, meta, Spacer 1 12] @ body))))"

text \<open>
  A stand-in for the parser in the concrete runs of this theory. It refuses a text that
  opens a bold tag and never closes it, as the library does, and accepts every other text.
  The library refuses more than that; the stand-in is applied only to texts without any
  markup and to texts with an unclosed bold tag, where the two agree.
\<close>

definition sample_parser :: "ustring \<Rightarrow> bool" where
  "sample_parser txt = (if contains txt (U ''<b>'') then contains txt (U ''</b>'') else True)"

section \<open>Python numbers\<close>

text \<open>
  A Python \<open>float\<close> is an IEEE 754 binary64 value: a finite one is the rational it
  denotes, beside the two infinities and NaN. The sign of zero is not modelled (it shows
  only in formatting). Every arithmetic operation rounds the exact result to the nearest
  binary64 value, ties to the even significand.
\<close>

datatype pyfloat = Finite rat | PosInf | NegInf | NaN

text \<open>\<open>exponent_of x\<close> is the \<open>e\<close> with \<open>2\<^sup>e \<le> x < 2\<^sup>e\<^sup>+\<^sup>1\<close>, for a positive \<open>x\<close>.\<close>

definition exponent_of :: "rat \<Rightarrow> int" where
  "exponent_of x =
     (if 1 \<le> x then bitlen \<lfloor>x\<rfloor> - 1
      else (let k = bitlen \<lfloor>1 / x\<rfloor> - 1 in if x * 2 ^ nat k = 1 then - k else - k - 1))"

definition round_half_even :: "rat \<Rightarrow> int" where
  "round_half_even q =
     (let f = \<lfloor>q\<rfloor>; r = q - of_int f
      in if r < 1 / 2 then f else if 1 / 2 < r then f + 1 else if even f then f else f + 1)"

text \<open>
  Rounding to binary64: 53 significant bits, exponents from \<open>-1022\<close> (below it the
  spacing stays \<open>2\<^sup>-\<^sup>1\<^sup>0\<^sup>7\<^sup>4\<close>) to \<open>1023\<close>; a result of magnitude \<open>2\<^sup>1\<^sup>0\<^sup>2\<^sup>4\<close> or more
  is an infinity.
\<close>

definition round_binary64 :: "rat \<Rightarrow> pyfloat" where
  "round_binary64 x =
     (if x = 0 then Finite 0
      else (let e = max (exponent_of \<bar>x\<bar>) (- 1022);
                ulp = power_int 2 (e - 52);
                r = of_int (round_half_even (x / ulp)) * ulp
            in if power_int 2 1024 \<le> \<bar>r\<bar> then (if 0 < x then PosInf else NegInf) else Finite r))"

text \<open>A decimal float literal of the source denotes the binary64 value nearest to it.\<close>

definition float_literal :: "rat \<Rightarrow> pyfloat" where
  "float_literal x = round_binary64 x"

text \<open>\<open>float(i)\<close> for an integer, also implicit in mixed arithmetic: OverflowError when too large.\<close>

definition int_to_float :: "int \<Rightarrow> exn + pyfloat" where
  "int_to_float i = (case round_binary64 (of_int i) of Finite r \<Rightarrow> Inr (Finite r) | _ \<Rightarrow> Inl OverflowError)"

fun fmul :: "pyfloat \<Rightarrow> pyfloat \<Rightarrow> pyfloat" where
  "fmul (Finite a) (Finite b) = round_binary64 (a * b)"
| "fmul NaN y = NaN"
| "fmul x NaN = NaN"
| "fmul PosInf (Finite b) = (if b = 0 then NaN else if 0 < b then PosInf else NegInf)"
| "fmul NegInf (Finite b) = (if b = 0 then NaN else if 0 < b then NegInf else PosInf)"
| "fmul (Finite a) PosInf = (if a = 0 then NaN else if 0 < a then PosInf else NegInf)"
| "fmul (Finite a) NegInf = (if a = 0 then NaN else if 0 < a then NegInf else PosInf)"
| "fmul PosInf PosInf = PosInf"
| "fmul PosInf NegInf = NegInf"
| "fmul NegInf PosInf = NegInf"
| "fmul NegInf NegInf = PosInf"

fun fadd :: "pyfloat \<Rightarrow> pyfloat \<Rightarrow> pyfloat" where
  "fadd (Finite a) (Finite b) = round_binary64 (a + b)"
| "fadd NaN y = NaN"
| "fadd x NaN = NaN"
| "fadd PosInf NegInf = NaN"
| "fadd NegInf PosInf = NaN"
| "fadd PosInf y = PosInf"
| "fadd NegInf y = NegInf"
| "fadd x PosInf = PosInf"
| "fadd x NegInf = NegInf"

text \<open>A number is an \<open>int\<close> (unbounded) or a \<open>float\<close>; mixed arithmetic converts the \<open>int\<close>.\<close>

datatype pynum = PyInt int | PyFloat pyfloat

fun py_mul :: "pynum \<Rightarrow> pynum \<Rightarrow> exn + pynum" where
  "py_mul (PyInt a) (PyInt b) = Inr (PyInt (a * b))"
| "py_mul (PyInt a) (PyFloat y) = and_then (int_to_float a) (\<lambda>x. Inr (PyFloat (fmul x y)))"
| "py_mul (PyFloat x) (PyInt b) = and_then (int_to_float b) (\<lambda>y. Inr (PyFloat (fmul x y)))"
| "py_mul (PyFloat x) (PyFloat y) = Inr (PyFloat (fmul x y))"

text \<open>Negation, subtraction, absolute value and the comparison \<open>\<ge>\<close> (false on a NaN).\<close>

fun fneg :: "pyfloat \<Rightarrow> pyfloat" where
  "fneg (Finite a) = Finite (- a)"
| "fneg PosInf = NegInf"
| "fneg NegInf = PosInf"
| "fneg NaN = NaN"

definition fsub :: "pyfloat \<Rightarrow> pyfloat \<Rightarrow> pyfloat" where
  "fsub x y = fadd x (fneg y)"

fun fabs :: "pyfloat \<Rightarrow> pyfloat" where
  "fabs (Finite a) = Finite \<bar>a\<bar>"
| "fabs PosInf = PosInf"
| "fabs NegInf = PosInf"
| "fabs NaN = NaN"

fun fge :: "pyfloat \<Rightarrow> pyfloat \<Rightarrow> bool" where
  "fge NaN y = False"
| "fge x NaN = False"
| "fge (Finite a) (Finite b) = (b \<le> a)"
| "fge PosInf y = True"
| "fge x NegInf = True"
| "fge (Finite a) PosInf = False"
| "fge NegInf y = False"

fun is_finite :: "pyfloat \<Rightarrow> bool" where
  "is_finite (Finite a) = True"
| "is_finite x = False"

text \<open>
  \<open>sum(xs)\<close> of a list of floats. The start value is the integer 0, which is the result
  for the empty list; the first float is added to it, and from there on the interpreter
  adds floats. CPython up to version 3.11 adds them from left to right. CPython 3.12 runs
  the compensated summation of Neumaier: beside the running sum \<open>f\<close> it keeps the sum
  \<open>c\<close> of the rounding errors of the additions, and adds \<open>c\<close> at the end when it is
  non-zero and finite. Which of the two runs is a parameter of the model.
\<close>

datatype sum_version = PlainSum | CompensatedSum

fun compensated_loop :: "pyfloat \<Rightarrow> pyfloat \<Rightarrow> pyfloat list \<Rightarrow> pyfloat" where
  "compensated_loop f c [] = (if c \<noteq> Finite 0 \<and> is_finite c then fadd f c else f)"
| "compensated_loop f c (x # xs) =
     (let t = fadd f x;
          c' = (if fge (fabs f) (fabs x) then fadd c (fadd (fsub f t) x)
                else fadd c (fadd (fsub x t) f))
      in compensated_loop t c' xs)"

definition py_sum :: "sum_version \<Rightarrow> pyfloat list \<Rightarrow> pynum" where
  "py_sum version xs =
     (case xs of
        [] \<Rightarrow> PyInt 0
      | x # rest \<Rightarrow>
          PyFloat (case version of
                     PlainSum \<Rightarrow> foldl fadd (fadd (Finite 0) x) rest
                   | CompensatedSum \<Rightarrow> compensated_loop (fadd (Finite 0) x) (Finite 0) rest))"

text \<open>The operand of a float operation: an \<open>int\<close> is converted, a \<open>float\<close> is taken as it is.\<close>

definition as_float :: "pynum \<Rightarrow> exn + pyfloat" where
  "as_float x = (case x of PyInt i \<Rightarrow> int_to_float i | PyFloat y \<Rightarrow> Inr y)"

text \<open>
  \<open>x\<close> is within \<open>k\<close> roundings of a non-negative \<open>y\<close>: each rounding moves a value by
  at most the factor \<open>1 \<plusminus> 2\<^sup>-\<^sup>5\<^sup>3\<close>.
\<close>

definition within_roundings :: "nat \<Rightarrow> rat \<Rightarrow> rat \<Rightarrow> bool" where
  "within_roundings k x y \<longleftrightarrow>
     y * (1 - 1 / 2 ^ 53) ^ k \<le> x \<and> x \<le> y * (1 + 1 / 2 ^ 53) ^ k"

section \<open>Budget estimation\<close>

text \<open>A product with a float on one side: the other operand, if an \<open>int\<close>, is converted.\<close>

definition times_float :: "pynum \<Rightarrow> pyfloat \<Rightarrow> exn + pyfloat" where
  "times_float x y = and_then (as_float x) (\<lambda>t. Inr (fmul t y))"

definition float_times :: "pyfloat \<Rightarrow> pynum \<Rightarrow> exn + pyfloat" where
  "float_times x y = and_then (as_float y) (\<lambda>t. Inr (fmul x t))"

text \<open>
  One entry of the breakdown: \<open>total_daily * w * days\<close>, evaluated from the left. The
  weight is a float literal, so the entry is a float whatever the arguments are.
\<close>

definition weighted :: "pynum \<Rightarrow> rat \<Rightarrow> pynum \<Rightarrow> exn + pyfloat" where
  "weighted total_daily w days =
     and_then (times_float total_daily (float_literal w)) (\<lambda>p. float_times p days)"

definition estimate_budget ::
  "sum_version \<Rightarrow> pynum \<Rightarrow> pynum \<Rightarrow> pynum \<Rightarrow> exn + ((ustring \<times> pynum) list \<times> pynum)" where
  "estimate_budget version days daily_budget num_people =
     and_then (py_mul daily_budget num_people) (\<lambda>total_daily.
     and_then (weighted total_daily (4 / 10) days) (\<lambda>accommodation.
     and_then (weighted total_daily (25 / 100) days) (\<lambda>food.
     and_then (weighted total_daily (15 / 100) days) (\<lambda>transport.
     and_then (weighted total_daily (2 / 10) days) (\<lambda>activities.
       (let breakdown = [(U ''Accommodation'', accommodation), (U ''Food'', food),
                         (U ''Transport'', transport), (U ''Activities'', activities)]
        in Inr (map (\<lambda>(k, v). (k, PyFloat v)) breakdown,
                py_sum version (map snd breakdown))))))))"

section \<open>Prompt and generation\<close>

definition SYSTEM_PROMPT :: ustring where
  "SYSTEM_PROMPT = dedent (U (
     ''\<newline>You are a professional travel planner.'' @
     ''\<newline>Create a realistic, day-by-day itinerary.'' @
     ''\<newline>Adapt activities based on ages (kids, adults, seniors).'' @
     ''\<newline>Respect guardrails strictly.'' @
     ''\<newline>'' @
     ''\<newline>Format:'' @
     ''\<newline>'' @
     ''\<newline>## City Name'' @
     ''\<newline>### Day 1'' @
     ''\<newline>- Morning:'' @
     ''\<newline>- Afternoon:'' @
     ''\<newline>- Evening:'' @
     ''\<newline>''))"

definition build_prompt ::
  "ustring list \<Rightarrow> int \<Rightarrow> ustring list \<Rightarrow> ustring \<Rightarrow> int \<Rightarrow> ustring \<Rightarrow> ustring" where
  "build_prompt cities days interests guardrails num_people ages =
     dedent (
       U ''\<newline>Cities: '' @ join (U '', '') cities @
       U ''\<newline>Days per city: '' @ str_int days @
       U ''\<newline>'' @
       U ''\<newline>Travel Group:'' @
       U ''\<newline>- Number of people: '' @ str_int num_people @
       U ''\<newline>- Ages: '' @ str_or ages (U ''Not specified'') @
       U ''\<newline>'' @
       U ''\<newline>Interests: '' @ str_or (join (U '', '') interests) (U ''General sightseeing'') @
       U ''\<newline>Guardrails: '' @ str_or guardrails (U ''None'') @
       U ''\<newline>'' @
       U ''\<newline>Guidelines:'' @
       U ''\<newline>- Include kid-friendly or senior-friendly activities if applicable'' @
       U ''\<newline>- Avoid physically demanding activities when younger kids or seniors are present'' @
       U ''\<newline>- Balance rest and exploration'' @
       U ''\<newline>'' @
       U ''\<newline>Generate a practical itinerary.'' @
       U ''\<newline>'')"

text \<open>
  The request of \<open>generate_itinerary\<close> and the external service: the service either raises
  or returns a response, of which the program reads \<open>choices\<close>: \<open>None\<close> when the
  response carries no such field, or else the list of the message contents of the choices
  (each a string or \<open>None\<close>). The service is a parameter of the model.
\<close>

record request =
  model :: ustring
  system_content :: ustring
  user_content :: ustring
  max_completion_tokens :: int

type_synonym service = "request \<Rightarrow> api_failure + pyval list option"

definition itinerary_request :: "ustring \<Rightarrow> request" where
  "itinerary_request prompt =
     \<lparr>model = U ''gpt-4.1'', system_content = SYSTEM_PROMPT, user_content = prompt,
      max_completion_tokens = 1800\<rparr>"

definition generate_itinerary :: "service \<Rightarrow> ustring \<Rightarrow> exn + pyval" where
  "generate_itinerary create prompt =
     (case create (itinerary_request prompt) of
        Inl failure \<Rightarrow> Inl (ApiError failure)
      | Inr None \<Rightarrow> Inl TypeError
      | Inr (Some choices) \<Rightarrow> (case choices of [] \<Rightarrow> Inl IndexError | content # _ \<Rightarrow> Inr content))"

section \<open>The script\<close>

text \<open>
  One run of the script after \<open>init_state()\<close>: the main action when the form was
  submitted, then the output section. What the run shows and calls is recorded as a trace
  of events; static decoration (title, caption, dividers, subheaders, spinner) is left
  out, and an amount is recorded as the number, before its two-decimal formatting. An
  exception that nothing catches ends the run.
\<close>

datatype event =
    Warning ustring
  | PromptBuilt ustring
  | ServiceCall request
  | Success ustring
  | Markdown pyval
  | EstimateCall pynum pynum pynum
  | WriteAmount ustring pynum
  | WriteTotal pynum
  | PdfBuild "flowable list"
  | DownloadButton
  | Error ustring

text \<open>
  What a run depends on outside the script: the generation service, the clock, the markup
  parser of the PDF library, whether \<open>doc.build\<close> succeeds on a story, and the summation of
  the interpreter.
\<close>

record env =
  create :: service
  now :: ustring
  markup_ok :: "ustring \<Rightarrow> bool"
  doc_build :: "flowable list \<Rightarrow> bool"
  summation :: sum_version

definition get_key :: "session \<Rightarrow> string \<Rightarrow> exn + pyval" where
  "get_key s k = (case s k of None \<Rightarrow> Inl KeyError | Some v \<Rightarrow> Inr v)"

text \<open>
  The widgets keep every key at the type of its default; a value of another type is not
  reachable, and reading it where the source needs that type is an exception here.
\<close>

definition as_str :: "pyval \<Rightarrow> exn + ustring" where
  "as_str v = (case v of PStr x \<Rightarrow> Inr x | _ \<Rightarrow> Inl AttributeError)"

definition as_int :: "pyval \<Rightarrow> exn + int" where
  "as_int v = (case v of PInt i \<Rightarrow> Inr i | _ \<Rightarrow> Inl TypeError)"

definition as_list :: "pyval \<Rightarrow> exn + ustring list" where
  "as_list v = (case v of PList xs \<Rightarrow> Inr xs | _ \<Rightarrow> Inl TypeError)"

definition truthy :: "pyval \<Rightarrow> bool" where
  "truthy v = (case v of PStr x \<Rightarrow> x \<noteq> [] | PInt i \<Rightarrow> i \<noteq> 0 | PList xs \<Rightarrow> xs \<noteq> [] | PNone \<Rightarrow> False)"

text \<open>\<open>[c.strip() for c in text.splitlines() if c.strip()]\<close>\<close>

definition entered_cities :: "ustring \<Rightarrow> ustring list" where
  "entered_cities text = map strip (filter (\<lambda>c. strip c \<noteq> []) (splitlines text))"

text \<open>The main action: the result is the session after it, or the exception that ended the run.\<close>

definition main_action :: "env \<Rightarrow> session \<Rightarrow> (exn + session) \<times> event list" where
  "main_action env s =
     (case and_then (get_key s ''cities'') as_str of
        Inl e \<Rightarrow> (Inl e, [])
      | Inr text \<Rightarrow>
          (let cities = entered_cities text in
           if cities = [] then (Inr s, [Warning (U ''Please enter at least one city.'')])
           else
             (case and_then (and_then (get_key s ''days'') as_int) (\<lambda>days.
                   and_then (and_then (get_key s ''interests'') as_list) (\<lambda>interests.
                   and_then (and_then (get_key s ''guardrails'') as_str) (\<lambda>guardrails.
                   and_then (and_then (get_key s ''num_people'') as_int) (\<lambda>num_people.
                   and_then (and_then (get_key s ''ages'') as_str) (\<lambda>ages.
                     Inr (build_prompt cities days interests guardrails num_people ages)))))) of
                Inl e \<Rightarrow> (Inl e, [])
              | Inr prompt \<Rightarrow>
                  (case generate_itinerary (create env) prompt of
                     Inl e \<Rightarrow> (Inl e, [PromptBuilt prompt, ServiceCall (itinerary_request prompt)])
                   | Inr content \<Rightarrow>
                       (Inr (s(''plan_md'' \<mapsto> content)),
                        [PromptBuilt prompt, ServiceCall (itinerary_request prompt)])))))"

text \<open>The PDF part of the output section: every exception in it is caught and shown.\<close>

definition pdf_download :: "env \<Rightarrow> pyval \<Rightarrow> event list" where
  "pdf_download env plan =
     (case plan of
        PStr text \<Rightarrow>
          (case write_pdf_story (markup_ok env) (now env) text of
             Inl e \<Rightarrow> [Error (U ''PDF generation failed'')]
           | Inr story \<Rightarrow>
               if doc_build env story then [PdfBuild story, DownloadButton]
               else [PdfBuild story, Error (U ''PDF generation failed'')])
      | _ \<Rightarrow> [Error (U ''PDF generation failed'')])"

definition budget_section :: "env \<Rightarrow> session \<Rightarrow> (exn + unit) \<times> event list" where
  "budget_section env s =
     (case and_then (and_then (get_key s ''days'') as_int) (\<lambda>days.
           and_then (and_then (get_key s ''cities'') as_str) (\<lambda>text.
           and_then (and_then (get_key s ''daily_budget'') as_int) (\<lambda>daily_budget.
           and_then (and_then (get_key s ''num_people'') as_int) (\<lambda>num_people.
             Inr (days * int (length (filter (\<lambda>c. strip c \<noteq> []) (splitlines text))),
                  daily_budget, num_people))))) of
        Inl e \<Rightarrow> (Inl e, [])
      | Inr (total_days, daily_budget, num_people) \<Rightarrow>
          (let call = EstimateCall (PyInt total_days) (PyInt daily_budget) (PyInt num_people) in
           case estimate_budget (summation env) (PyInt total_days) (PyInt daily_budget) (PyInt num_people) of
             Inl e \<Rightarrow> (Inl e, [call])
           | Inr (breakdown, tot) \<Rightarrow>
               (Inr (), call # map (\<lambda>(k, v). WriteAmount k v) breakdown @ [WriteTotal tot])))"

definition output_section :: "env \<Rightarrow> session \<Rightarrow> (exn + unit) \<times> event list" where
  "output_section env s =
     (case get_key s ''plan_md'' of
        Inl e \<Rightarrow> (Inl e, [])
      | Inr plan \<Rightarrow>
          if truthy plan then
            (let shown = [Success (U ''Travel plan generated!''), Markdown plan] in
             case budget_section env s of
               (Inl e, evs) \<Rightarrow> (Inl e, shown @ evs)
             | (Inr u, evs) \<Rightarrow> (Inr (), shown @ evs @ pdf_download env plan))
          else (Inr (), []))"

definition run_script :: "env \<Rightarrow> bool \<Rightarrow> session \<Rightarrow> (exn + unit) \<times> session \<times> event list" where
  "run_script env submitted s0 =
     (let s = init_state s0 in
      if submitted then
        (case main_action env s of
           (Inl e, evs) \<Rightarrow> (Inl e, s, evs)
         | (Inr s', evs) \<Rightarrow>
             (case output_section env s' of (r, evs') \<Rightarrow> (r, s', evs @ evs')))
      else (case output_section env s of (r, evs') \<Rightarrow> (r, s, evs')))"

section \<open>Kinds of events and concrete runs\<close>

definition generation_event :: "event \<Rightarrow> bool" where
  "generation_event e = (case e of PromptBuilt p \<Rightarrow> True | ServiceCall r \<Rightarrow> True | _ \<Rightarrow> False)"

definition estimator_event :: "event \<Rightarrow> bool" where
  "estimator_event e = (case e of EstimateCall d b n \<Rightarrow> True | _ \<Rightarrow> False)"

text \<open>
  Sessions and environments for the concrete runs below: a session that still holds the
  itinerary of an earlier run while the cities field is empty; one whose cities field is
  white space only; one with a city entered; a service that answers, one that fails on
  authentication, one that returns no choice, one whose only choice has no content, and
  one whose response has no \<open>choices\<close> field.
\<close>

definition stale_session :: session where
  "stale_session = [''cities'' \<mapsto> PStr [], ''plan_md'' \<mapsto> PStr (U ''## Rome'')]"

definition blank_session :: session where
  "blank_session = [''cities'' \<mapsto> PStr (U ''  \<newline> '')]"

definition rome_session :: session where
  "rome_session = [''cities'' \<mapsto> PStr (U ''Rome'')]"

definition env_with :: "service \<Rightarrow> env" where
  "env_with srv =
     \<lparr>create = srv, now = U ''2025-01-01 09:00'', markup_ok = sample_parser,
      doc_build = (\<lambda>story. True), summation = CompensatedSum\<rparr>"

definition quiet_env :: env where
  "quiet_env = env_with (\<lambda>r. Inr (Some [PStr (U ''## Rome'')]))"

definition auth_failing_env :: env where
  "auth_failing_env = env_with (\<lambda>r. Inl AuthFailure)"

definition no_choice_env :: env where
  "no_choice_env = env_with (\<lambda>r. Inr (Some []))"

definition no_content_env :: env where
  "no_content_env = env_with (\<lambda>r. Inr (Some [PNone]))"

definition no_choices_field_env :: env where
  "no_choices_field_env = env_with (\<lambda>r. Inr None)"

text \<open>The session of the two-city scenario.\<close>

definition two_city_session :: session where
  "two_city_session =
     [''cities'' \<mapsto> PStr (U ''Rome, Italy\<newline>Paris, France''), ''days'' \<mapsto> PInt 3,
      ''num_people'' \<mapsto> PInt 2, ''daily_budget'' \<mapsto> PInt 300]"

section \<open>Facts about line splitting\<close>

lemma splitlines_from_no_break:
  "\<forall>c \<in> set s. \<not> is_linebreak c \<Longrightarrow>
   splitlines_from cur s = (if cur = [] \<and> s = [] then [] else [rev cur @ s])"
  by (induction s arbitrary: cur) auto

lemma splitlines_from_line_LF:
  "\<forall>c \<in> set l. \<not> is_linebreak c \<Longrightarrow>
   splitlines_from cur (l @ LF # s) = (rev cur @ l) # splitlines_from [] s"
proof (induction l arbitrary: cur)
  case Nil
  show ?case by (cases s) (simp_all add: is_linebreak_def LF_def CR_def)
next
  case (Cons a l)
  then show ?case by simp
qed

lemma splitlines_line_LF:
  "\<forall>c \<in> set l. \<not> is_linebreak c \<Longrightarrow> splitlines (l @ LF # s) = l # splitlines s"
  by (simp add: splitlines_def splitlines_from_line_LF)

lemma splitlines_last_line:
  "\<forall>c \<in> set l. \<not> is_linebreak c \<Longrightarrow> l \<noteq> [] \<Longrightarrow> splitlines l = [l]"
  by (simp add: splitlines_def splitlines_from_no_break)

lemma splitlines_Nil: "splitlines [] = []"
  by (simp add: splitlines_def)


lemma splitlines_from_break:
  assumes "\<forall>c \<in> set l. \<not> is_linebreak c" "is_linebreak b" "\<not> (b = CR \<and> startswith s [LF])"
  shows "splitlines_from cur (l @ b # s) = (rev cur @ l) # splitlines_from [] s"
  using assms
proof (induction l arbitrary: cur)
  case Nil
  then show ?case by (cases s) (auto simp: startswith_def)
next
  case (Cons a l)
  then show ?case by simp
qed

lemma splitlines_from_CRLF:
  "\<forall>c \<in> set l. \<not> is_linebreak c \<Longrightarrow>
   splitlines_from cur (l @ CR # LF # s) = (rev cur @ l) # splitlines_from [] s"
proof (induction l arbitrary: cur)
  case Nil
  show ?case by (simp add: is_linebreak_def CR_def)
next
  case (Cons a l)
  then show ?case by simp
qed

lemma split_on_newline_from_nonempty: "split_on_newline_from cur s \<noteq> []"
  by (induction s arbitrary: cur) auto

lemma splitlines_from_only_LF:
  "\<forall>c \<in> set s. is_linebreak c \<longrightarrow> c = LF \<Longrightarrow>
   splitlines_from cur s =
     (if last (split_on_newline_from cur s) = [] then butlast (split_on_newline_from cur s)
      else split_on_newline_from cur s)"
proof (induction s arbitrary: cur)
  case Nil
  show ?case by simp
next
  case (Cons c s)
  show ?case
  proof (cases "c = LF")
    case True
    have lb: "is_linebreak LF" by (simp add: is_linebreak_def LF_def)
    have ne: "LF \<noteq> CR" by (simp add: LF_def CR_def)
    from Cons.prems have "\<forall>c \<in> set s. is_linebreak c \<longrightarrow> c = LF" by simp
    from Cons.IH [OF this, of "[]"] True lb ne show ?thesis
      by (cases s) (simp_all add: split_on_newline_from_nonempty)
  next
    case False
    with Cons.prems have nb: "\<not> is_linebreak c" by auto
    from Cons.prems have "\<forall>c \<in> set s. is_linebreak c \<longrightarrow> c = LF" by simp
    from Cons.IH [OF this, of "c # cur"] False nb show ?thesis by simp
  qed
qed

lemma last_split_on_newline_from:
  "last (split_on_newline_from cur s) = [] \<longleftrightarrow> (s = [] \<and> cur = []) \<or> (s \<noteq> [] \<and> last s = LF)"
proof (induction s arbitrary: cur)
  case Nil
  show ?case by simp
next
  case (Cons c s)
  show ?case
  proof (cases "c = LF")
    case True
    with Cons [of "[]"] show ?thesis by (auto simp: split_on_newline_from_nonempty)
  next
    case False
    with Cons [of "c # cur"] show ?thesis by auto
  qed
qed

section \<open>Facts about literals and markers\<close>

lemma U_Nil: "U [] = []"
  by (simp add: U_def)

lemma U_Cons: "U (c # cs) = of_char c # U cs"
  by (simp add: U_def)

lemma U_append: "U (a @ b) = U a @ U b"
  by (simp add: U_def)

lemma startswith_Cons: "startswith (c # s) (d # p) \<longleftrightarrow> c = d \<and> startswith s p"
  by (auto simp: startswith_def)

lemma startswith_Nil: "startswith s []" "\<not> startswith [] (d # p)"
  by (simp_all add: startswith_def)

lemma line_block_heading: "line_block accepts (U ''## '' @ t) = new_paragraph accepts t H2"
  by (simp add: line_block_def U_Cons U_Nil startswith_Cons startswith_Nil)

lemma line_block_bullet:
  "line_block accepts (U ''- '' @ t) =
     and_then (new_paragraph accepts t BodyText) (\<lambda>item. Inr (ListFlowable [ListItem item]))"
  by (simp add: line_block_def U_Cons U_Nil startswith_Cons startswith_Nil)

lemma line_block_plain:
  "\<not> startswith line (U ''## '') \<Longrightarrow> \<not> startswith line (U ''- '') \<Longrightarrow> line \<noteq> [] \<Longrightarrow>
   line_block accepts line = new_paragraph accepts line BodyText"
  by (simp add: line_block_def)

lemma contains_Nil: "contains [] (c # p) = False"
  by (simp add: contains_def)

lemma contains_Cons: "contains (c # s) (d # p) \<longleftrightarrow> prefix (d # p) (c # s) \<or> contains s (d # p)"
  by (simp add: contains_def sublist_Cons_right)

section \<open>The session reset\<close>

text \<open>
  C8. Whatever the session holds, \<open>reset_all\<close> leaves exactly the eight keys at their
  defaults: days 3, one person, a daily budget of 300, and empty cities, interests,
  guardrails, ages and itinerary text.
\<close>

theorem reset_all_defaults:
  "reset_all s =
     [''cities'' \<mapsto> PStr [], ''days'' \<mapsto> PInt 3, ''interests'' \<mapsto> PList [],
      ''guardrails'' \<mapsto> PStr [], ''daily_budget'' \<mapsto> PInt 300, ''num_people'' \<mapsto> PInt 1,
      ''ages'' \<mapsto> PStr [], ''plan_md'' \<mapsto> PStr []]"
  by (simp add: reset_all_def clear_def init_state_def setdefault_def)

section \<open>The renderer's lines and blocks\<close>

text \<open>
  C3, as the code has it. A text made of a level-2 heading line and two bullet lines,
  joined by LF, the three lines holding no line boundary of their own: when the library's
  parser accepts the heading text and the two bullet texts, the text renders as the heading
  block, then the two bullets each as a list of its own with one item, every block
  followed by the spacer; when it refuses one of the three, the renderer raises
  \<open>ValueError\<close>.
\<close>

theorem heading_then_two_bullets:
  assumes "\<forall>c \<in> set h. \<not> is_linebreak c" "\<forall>c \<in> set a. \<not> is_linebreak c"
    "\<forall>c \<in> set b. \<not> is_linebreak c"
  shows "markdown_to_flowables accepts (U ''## '' @ h @ [LF] @ U ''- '' @ a @ [LF] @ U ''- '' @ b) =
           (if accepts h \<and> accepts a \<and> accepts b then
              Inr [Paragraph h H2, Spacer 1 4,
                   ListFlowable [ListItem (Paragraph a BodyText)], Spacer 1 4,
                   ListFlowable [ListItem (Paragraph b BodyText)], Spacer 1 4]
            else Inl ValueError)"
proof -
  have nb: "\<forall>c \<in> set (U ''## ''). \<not> is_linebreak c" "\<forall>c \<in> set (U ''- ''). \<not> is_linebreak c"
    by (simp_all add: U_Cons U_Nil is_linebreak_def)
  from nb assms have 1: "\<forall>c \<in> set (U ''## '' @ h). \<not> is_linebreak c"
    and 2: "\<forall>c \<in> set (U ''- '' @ a). \<not> is_linebreak c"
    and 3: "\<forall>c \<in> set (U ''- '' @ b). \<not> is_linebreak c" by auto
  have ne: "U ''- '' @ b \<noteq> []" by (simp add: U_Cons)
  have "splitlines ((U ''## '' @ h) @ LF # (U ''- '' @ a) @ LF # (U ''- '' @ b)) =
      [U ''## '' @ h, U ''- '' @ a, U ''- '' @ b]"
    by (simp only: splitlines_line_LF [OF 1] splitlines_line_LF [OF 2] splitlines_last_line [OF 3 ne])
  then show ?thesis
    by (simp add: markdown_to_flowables_def line_block_heading line_block_bullet
        new_paragraph_def and_then_def)
qed

theorem heading_then_two_bullets_witness:
  "list_all (\<lambda>c. \<not> is_linebreak c) (U ''Rome'') \<and>
   list_all (\<lambda>c. \<not> is_linebreak c) (U ''Morning: Forum'') \<and>
   list_all (\<lambda>c. \<not> is_linebreak c) (U ''Evening: Trastevere'') \<and>
   sample_parser (U ''Rome'') \<and> sample_parser (U ''Morning: Forum'') \<and>
   sample_parser (U ''Evening: Trastevere'') \<and>
   markdown_to_flowables sample_parser
     (U ''## '' @ U ''Rome'' @ [LF] @ U ''- '' @ U ''Morning: Forum'' @ [LF] @
      U ''- '' @ U ''Evening: Trastevere'') =
     Inr [Paragraph (U ''Rome'') H2, Spacer 1 4,
          ListFlowable [ListItem (Paragraph (U ''Morning: Forum'') BodyText)], Spacer 1 4,
          ListFlowable [ListItem (Paragraph (U ''Evening: Trastevere'') BodyText)], Spacer 1 4]"
proof -
  have h: "list_all (\<lambda>c. \<not> is_linebreak c) (U ''Rome'')"
    by (simp add: U_Cons U_Nil is_linebreak_def)
  have a: "list_all (\<lambda>c. \<not> is_linebreak c) (U ''Morning: Forum'')"
    by (simp add: U_Cons U_Nil is_linebreak_def)
  have b: "list_all (\<lambda>c. \<not> is_linebreak c) (U ''Evening: Trastevere'')"
    by (simp add: U_Cons U_Nil is_linebreak_def)
  have p: "sample_parser (U ''Rome'')" "sample_parser (U ''Morning: Forum'')"
    "sample_parser (U ''Evening: Trastevere'')"
    by (simp_all add: sample_parser_def U_Cons U_Nil contains_Cons contains_Nil)
  from h a b p
    heading_then_two_bullets [of "U ''Rome''" "U ''Morning: Forum''" "U ''Evening: Trastevere''"
      sample_parser]
  show ?thesis by (simp only: list_all_iff simp_thms if_True)
qed

text \<open>
  C3 as it is stated fails: a heading line whose text opens a bold tag and never closes it
  is a level-2 heading line, and on it the renderer raises \<open>ValueError\<close> instead of
  producing blocks.
\<close>

theorem heading_markup_refused:
  "list_all (\<lambda>c. \<not> is_linebreak c) (U ''<b>Rome'') \<and>
   list_all (\<lambda>c. \<not> is_linebreak c) (U ''a'') \<and> list_all (\<lambda>c. \<not> is_linebreak c) (U ''b'') \<and>
   markdown_to_flowables sample_parser
     (U ''## '' @ U ''<b>Rome'' @ [LF] @ U ''- '' @ U ''a'' @ [LF] @ U ''- '' @ U ''b'') =
     Inl ValueError"
  by (simp add: markdown_to_flowables_def splitlines_def line_block_def new_paragraph_def
      and_then_def sample_parser_def U_Cons U_Nil is_linebreak_def LF_def startswith_Cons
      startswith_Nil contains_Cons contains_Nil)

text \<open>
  C4, as the code has it. The renderer splits with \<open>str.splitlines\<close>. For a text whose
  only line boundaries are LF characters it renders the lines of splitting on LF, except
  that the empty text and a text ending in LF have no empty last line. Every other
  boundary character (CR, VT, FF, FS, GS, RS, NEL, LS, PS) ends a line too, and CR LF
  counts as one boundary: the line before the boundary gets a block of its own, followed
  by what the renderer makes of the rest of the text.
\<close>

theorem renderer_line_boundaries:
  "((\<forall>c \<in> set s. is_linebreak c \<longrightarrow> c = LF) \<longrightarrow>
      markdown_to_flowables accepts s =
        flow_lines accepts
          (if s = [] \<or> last s = LF then butlast (split_on_newline s) else split_on_newline s)) \<and>
   ((\<forall>c \<in> set l. \<not> is_linebreak c) \<and> is_linebreak b \<and> \<not> (b = CR \<and> startswith r [LF]) \<longrightarrow>
      markdown_to_flowables accepts (l @ b # r) =
        and_then (line_block accepts l) (\<lambda>block.
        and_then (markdown_to_flowables accepts r) (\<lambda>rest. Inr (block # Spacer 1 4 # rest)))) \<and>
   ((\<forall>c \<in> set l. \<not> is_linebreak c) \<longrightarrow>
      markdown_to_flowables accepts (l @ CR # LF # r) =
        and_then (line_block accepts l) (\<lambda>block.
        and_then (markdown_to_flowables accepts r) (\<lambda>rest. Inr (block # Spacer 1 4 # rest))))"
proof (intro conjI impI)
  assume a: "\<forall>c \<in> set s. is_linebreak c \<longrightarrow> c = LF"
  from splitlines_from_only_LF [OF a, of "[]"] last_split_on_newline_from [of "[]" s]
  have "splitlines s =
     (if s = [] \<or> last s = LF then butlast (split_on_newline s) else split_on_newline s)"
    by (auto simp: splitlines_def split_on_newline_def)
  then show "markdown_to_flowables accepts s =
      flow_lines accepts
        (if s = [] \<or> last s = LF then butlast (split_on_newline s) else split_on_newline s)"
    by (simp only: markdown_to_flowables_def)
next
  assume "(\<forall>c \<in> set l. \<not> is_linebreak c) \<and> is_linebreak b \<and> \<not> (b = CR \<and> startswith r [LF])"
  then have "splitlines (l @ b # r) = l # splitlines r"
    by (simp add: splitlines_def splitlines_from_break)
  then show "markdown_to_flowables accepts (l @ b # r) =
      and_then (line_block accepts l) (\<lambda>block.
      and_then (markdown_to_flowables accepts r) (\<lambda>rest. Inr (block # Spacer 1 4 # rest)))"
    by (simp add: markdown_to_flowables_def)
next
  assume "\<forall>c \<in> set l. \<not> is_linebreak c"
  then have "splitlines (l @ CR # LF # r) = l # splitlines r"
    by (simp add: splitlines_def splitlines_from_CRLF)
  then show "markdown_to_flowables accepts (l @ CR # LF # r) =
      and_then (line_block accepts l) (\<lambda>block.
      and_then (markdown_to_flowables accepts r) (\<lambda>rest. Inr (block # Spacer 1 4 # rest)))"
    by (simp add: markdown_to_flowables_def)
qed

theorem renderer_line_boundaries_witness:
  "list_all (\<lambda>c. is_linebreak c \<longrightarrow> c = LF) (U ''## Rome\<newline>- Forum\<newline>'') \<and>
   split_on_newline (U ''## Rome\<newline>- Forum\<newline>'') = [U ''## Rome'', U ''- Forum'', []] \<and>
   markdown_to_flowables sample_parser (U ''## Rome\<newline>- Forum\<newline>'') =
     flow_lines sample_parser [U ''## Rome'', U ''- Forum''] \<and>
   list_all (\<lambda>c. \<not> is_linebreak c) (U ''Rome'') \<and> is_linebreak 12 \<and>
   \<not> (12 = CR \<and> startswith (U ''Paris'') [LF]) \<and>
   markdown_to_flowables sample_parser (U ''Rome'' @ 12 # U ''Paris'') =
     and_then (line_block sample_parser (U ''Rome'')) (\<lambda>block.
     and_then (markdown_to_flowables sample_parser (U ''Paris''))
       (\<lambda>rest. Inr (block # Spacer 1 4 # rest))) \<and>
   markdown_to_flowables sample_parser (U ''Rome'' @ CR # LF # U ''Paris'') =
     and_then (line_block sample_parser (U ''Rome'')) (\<lambda>block.
     and_then (markdown_to_flowables sample_parser (U ''Paris''))
       (\<lambda>rest. Inr (block # Spacer 1 4 # rest)))"
proof -
  have 1: "\<forall>c \<in> set (U ''## Rome\<newline>- Forum\<newline>''). is_linebreak c \<longrightarrow> c = LF"
    by (simp add: U_Cons U_Nil is_linebreak_def LF_def)
  have 2: "split_on_newline (U ''## Rome\<newline>- Forum\<newline>'') = [U ''## Rome'', U ''- Forum'', []]"
    by (simp add: U_Cons U_Nil split_on_newline_def LF_def)
  have 3: "(\<forall>c \<in> set (U ''Rome''). \<not> is_linebreak c) \<and> is_linebreak 12 \<and>
      \<not> (12 = CR \<and> startswith (U ''Paris'') [LF])"
    by (simp add: U_Cons U_Nil is_linebreak_def CR_def)
  have 4: "last (U ''## Rome\<newline>- Forum\<newline>'') = LF"
    by (simp add: U_Cons U_Nil LF_def)
  from 1 2 3 4
    renderer_line_boundaries [of "U ''## Rome\<newline>- Forum\<newline>''" sample_parser "U ''Rome''" 12
      "U ''Paris''"]
  show ?thesis by (simp add: list_all_iff)
qed

text \<open>
  C4 as it is stated fails: a carriage return starts a new block for the renderer, while
  the lines of splitting on LF would give one block that holds the carriage return.
\<close>

theorem carriage_return_starts_block:
  "markdown_to_flowables sample_parser (U ''Rome'' @ [CR] @ U ''Paris'') =
     Inr [Paragraph (U ''Rome'') BodyText, Spacer 1 4, Paragraph (U ''Paris'') BodyText, Spacer 1 4] \<and>
   flow_lines sample_parser (split_on_newline (U ''Rome'' @ [CR] @ U ''Paris'')) =
     Inr [Paragraph (U ''Rome'' @ [CR] @ U ''Paris'') BodyText, Spacer 1 4] \<and>
   markdown_to_flowables sample_parser (U ''Rome'' @ [CR] @ U ''Paris'') \<noteq>
     flow_lines sample_parser (split_on_newline (U ''Rome'' @ [CR] @ U ''Paris''))"
  by (simp add: markdown_to_flowables_def splitlines_def split_on_newline_def line_block_def
      new_paragraph_def and_then_def sample_parser_def U_Cons U_Nil is_linebreak_def CR_def LF_def
      startswith_Cons startswith_Nil contains_Cons contains_Nil)

section \<open>A run of the script\<close>

lemma pdf_download_no_calls:
  "list_all (\<lambda>e. \<not> generation_event e \<and> \<not> estimator_event e) (pdf_download env plan)"
  by (cases plan)
    (simp_all add: pdf_download_def Let_def generation_event_def estimator_event_def
      split: sum.splits)

lemma budget_section_no_generation:
  "list_all (\<lambda>e. \<not> generation_event e) (snd (budget_section env s))"
  by (auto simp: budget_section_def Let_def generation_event_def list_all_iff
      split: sum.splits prod.splits)

lemma output_section_no_generation:
  "list_all (\<lambda>e. \<not> generation_event e) (snd (output_section env s))"
proof -
  have p: "list_all (\<lambda>e. \<not> generation_event e) (pdf_download env plan)" for plan
    using pdf_download_no_calls [of env plan] by (simp add: list_all_iff)
  have b: "budget_section env s = (r, evs) \<Longrightarrow> list_all (\<lambda>e. \<not> generation_event e) evs" for r evs
    using budget_section_no_generation [of env s] by simp
  show ?thesis
    by (auto simp: output_section_def Let_def p dest: b
        split: sum.splits prod.splits) (simp_all add: generation_event_def)
qed

lemma output_section_falsy:
  "s ''plan_md'' = Some plan \<Longrightarrow> \<not> truthy plan \<Longrightarrow> output_section env s = (Inr (), [])"
  by (simp add: output_section_def get_key_def)

lemma main_action_no_cities:
  "s ''cities'' = Some (PStr text) \<Longrightarrow> entered_cities text = [] \<Longrightarrow>
   main_action env s = (Inr s, [Warning (U ''Please enter at least one city.'')])"
  by (simp add: main_action_def get_key_def and_then_def as_str_def)

lemma budget_section_starts_with_call:
  assumes "s ''days'' = Some (PInt days)" "s ''cities'' = Some (PStr txt)"
    "s ''daily_budget'' = Some (PInt daily_budget)" "s ''num_people'' = Some (PInt num_people)"
  shows "\<exists>r evs. budget_section env s =
           (r, EstimateCall (PyInt (days * int (length (filter (\<lambda>c. strip c \<noteq> []) (splitlines txt)))))
                 (PyInt daily_budget) (PyInt num_people) # evs)"
  using assms
  by (simp add: budget_section_def get_key_def and_then_def as_int_def as_str_def Let_def
      split: sum.splits prod.splits)

lemma init_state_stale:
  "init_state stale_session =
    [''cities'' \<mapsto> PStr [], ''plan_md'' \<mapsto> PStr (U ''## Rome''), ''days'' \<mapsto> PInt 3,
     ''interests'' \<mapsto> PList [], ''guardrails'' \<mapsto> PStr [], ''daily_budget'' \<mapsto> PInt 300,
     ''num_people'' \<mapsto> PInt 1, ''ages'' \<mapsto> PStr []]"
  by (simp add: init_state_def setdefault_def stale_session_def)

lemma entered_cities_Nil: "entered_cities [] = []"
  by (simp add: entered_cities_def splitlines_def)

lemma main_action_prompt:
  assumes "s ''cities'' = Some (PStr txt)" "entered_cities txt \<noteq> []"
    "s ''days'' = Some (PInt days)" "s ''interests'' = Some (PList interests)"
    "s ''guardrails'' = Some (PStr guardrails)" "s ''num_people'' = Some (PInt num_people)"
    "s ''ages'' = Some (PStr ages)"
    "prompt = build_prompt (entered_cities txt) days interests guardrails num_people ages"
  shows "main_action env s =
     (case generate_itinerary (create env) prompt of
        Inl e \<Rightarrow> (Inl e, [PromptBuilt prompt, ServiceCall (itinerary_request prompt)])
      | Inr content \<Rightarrow> (Inr (s(''plan_md'' \<mapsto> content)),
           [PromptBuilt prompt, ServiceCall (itinerary_request prompt)]))"
  using assms(1-7) unfolding assms(8)
  by (simp add: main_action_def get_key_def and_then_def as_int_def as_str_def as_list_def Let_def)

text \<open>
  C6, as the code has it. When no city is left after splitting the cities field into lines,
  trimming and dropping blanks, the run of a submission keeps the session as it is (the
  stored itinerary too), warns, and goes on to the output section: its trace is the
  warning followed by the output section's. No prompt is built and the generation service
  is not called. When the stored itinerary is empty the trace is the warning alone, so the
  Budget Estimator is not called either.
\<close>

theorem no_cities_aborts:
  assumes "init_state s ''cities'' = Some (PStr text)" "entered_cities text = []"
  shows "fst (snd (run_script env True s)) = init_state s \<and>
         snd (snd (run_script env True s)) =
           Warning (U ''Please enter at least one city.'') # snd (output_section env (init_state s)) \<and>
         list_all (\<lambda>e. \<not> generation_event e) (snd (snd (run_script env True s))) \<and>
         (\<forall>plan. init_state s ''plan_md'' = Some plan \<and> \<not> truthy plan \<longrightarrow>
            run_script env True s =
              (Inr (), init_state s, [Warning (U ''Please enter at least one city.'')]))"
proof -
  have m: "main_action env (init_state s) =
      (Inr (init_state s), [Warning (U ''Please enter at least one city.'')])"
    by (rule main_action_no_cities [of "init_state s" "text" env, OF assms])
  have r: "run_script env True s =
      (fst (output_section env (init_state s)), init_state s,
       Warning (U ''Please enter at least one city.'') # snd (output_section env (init_state s)))"
    by (simp add: run_script_def Let_def m split: prod.splits)
  show ?thesis
    using output_section_no_generation [of env "init_state s"]
    by (auto simp: r generation_event_def output_section_falsy)
qed

theorem no_cities_aborts_witness:
  "init_state blank_session ''cities'' = Some (PStr (U ''  \<newline> '')) \<and>
   entered_cities (U ''  \<newline> '') = [] \<and>
   init_state blank_session ''plan_md'' = Some (PStr []) \<and> \<not> truthy (PStr []) \<and>
   run_script quiet_env True blank_session =
     (Inr (), init_state blank_session, [Warning (U ''Please enter at least one city.'')])"
proof -
  have 1: "init_state blank_session ''cities'' = Some (PStr (U ''  \<newline> ''))"
    by (simp add: init_state_def setdefault_def blank_session_def)
  have 2: "entered_cities (U ''  \<newline> '') = []"
    by (simp add: entered_cities_def splitlines_def U_Cons U_Nil is_linebreak_def strip_def
        is_whitespace_def)
  have 3: "init_state blank_session ''plan_md'' = Some (PStr [])"
    by (simp add: init_state_def setdefault_def blank_session_def)
  have 4: "\<not> truthy (PStr [])" by (simp add: truthy_def)
  from no_cities_aborts [OF 1 2, of quiet_env] 1 2 3 4 show ?thesis by blast
qed

text \<open>
  C6 as it is stated fails when an earlier itinerary is still stored: the output section
  of the same run shows it again and calls the Budget Estimator, for zero days.
\<close>

theorem no_cities_estimator_called:
  "entered_cities [] = [] \<and>
   init_state stale_session ''cities'' = Some (PStr []) \<and>
   EstimateCall (PyInt 0) (PyInt 300) (PyInt 1) \<in> set (snd (snd (run_script quiet_env True stale_session)))"
proof -
  let ?s = "init_state stale_session"
  have c: "?s ''cities'' = Some (PStr [])" by (simp add: init_state_stale)
  have m: "main_action quiet_env ?s = (Inr ?s, [Warning (U ''Please enter at least one city.'')])"
    by (rule main_action_no_cities [of ?s "[]" quiet_env, OF c entered_cities_Nil])
  have "\<exists>r evs. budget_section quiet_env ?s =
      (r, EstimateCall (PyInt (3 * int (length (filter (\<lambda>c. strip c \<noteq> []) (splitlines [])))))
            (PyInt 300) (PyInt 1) # evs)"
    by (rule budget_section_starts_with_call) (simp_all add: init_state_stale)
  then obtain r evs where b: "budget_section quiet_env ?s = (r, EstimateCall (PyInt 0) (PyInt 300) (PyInt 1) # evs)"
    by (auto simp: splitlines_def)
  have p: "get_key ?s ''plan_md'' = Inr (PStr (U ''## Rome''))"
    by (simp add: init_state_stale get_key_def)
  have t: "truthy (PStr (U ''## Rome''))" by (simp add: truthy_def U_Cons)
  have "EstimateCall (PyInt 0) (PyInt 300) (PyInt 1) \<in> set (snd (output_section quiet_env ?s))"
    by (cases r) (simp_all add: output_section_def p t b Let_def)
  then show ?thesis
    using c by (auto simp: run_script_def Let_def m entered_cities_Nil split: prod.splits)
qed

text \<open>
  C7. The code does not give the failures of the generation call one uniform outcome: an
  exception of the call leaves \<open>generate_itinerary\<close> and the run as it was raised, with
  the kind of failure it carries and with no error shown by the script; a response without
  the \<open>choices\<close> field is a TypeError and one with no choice an IndexError; a response
  whose first choice has no content is no failure at all, and stores \<open>None\<close> as the
  itinerary. In every case the script calls the service once and nothing of an itinerary
  is shown.
\<close>

theorem generation_failure_uncaught:
  assumes "init_state s ''cities'' = Some (PStr txt)" "entered_cities txt \<noteq> []"
    "init_state s ''days'' = Some (PInt days)" "init_state s ''interests'' = Some (PList interests)"
    "init_state s ''guardrails'' = Some (PStr guardrails)"
    "init_state s ''num_people'' = Some (PInt num_people)"
    "init_state s ''ages'' = Some (PStr ages)"
    "prompt = build_prompt (entered_cities txt) days interests guardrails num_people ages"
  shows "(create env (itinerary_request prompt) = Inl failure \<longrightarrow>
            run_script env True s =
              (Inl (ApiError failure), init_state s,
               [PromptBuilt prompt, ServiceCall (itinerary_request prompt)])) \<and>
         (create env (itinerary_request prompt) = Inr None \<longrightarrow>
            run_script env True s =
              (Inl TypeError, init_state s,
               [PromptBuilt prompt, ServiceCall (itinerary_request prompt)])) \<and>
         (create env (itinerary_request prompt) = Inr (Some []) \<longrightarrow>
            run_script env True s =
              (Inl IndexError, init_state s,
               [PromptBuilt prompt, ServiceCall (itinerary_request prompt)])) \<and>
         (create env (itinerary_request prompt) = Inr (Some (PNone # others)) \<longrightarrow>
            run_script env True s =
              (Inr (), (init_state s)(''plan_md'' \<mapsto> PNone),
               [PromptBuilt prompt, ServiceCall (itinerary_request prompt)]))"
proof -
  note m = main_action_prompt [OF assms, of env]
  show ?thesis
    by (auto simp: run_script_def Let_def m generate_itinerary_def output_section_def get_key_def
        truthy_def split: prod.splits)
qed

theorem generation_failure_uncaught_witness:
  "run_script auth_failing_env True rome_session =
     (Inl (ApiError AuthFailure), init_state rome_session,
      [PromptBuilt (build_prompt [U ''Rome''] 3 [] [] 1 []),
       ServiceCall (itinerary_request (build_prompt [U ''Rome''] 3 [] [] 1 []))]) \<and>
   run_script no_choices_field_env True rome_session =
     (Inl TypeError, init_state rome_session,
      [PromptBuilt (build_prompt [U ''Rome''] 3 [] [] 1 []),
       ServiceCall (itinerary_request (build_prompt [U ''Rome''] 3 [] [] 1 []))]) \<and>
   run_script no_choice_env True rome_session =
     (Inl IndexError, init_state rome_session,
      [PromptBuilt (build_prompt [U ''Rome''] 3 [] [] 1 []),
       ServiceCall (itinerary_request (build_prompt [U ''Rome''] 3 [] [] 1 []))]) \<and>
   run_script no_content_env True rome_session =
     (Inr (), (init_state rome_session)(''plan_md'' \<mapsto> PNone),
      [PromptBuilt (build_prompt [U ''Rome''] 3 [] [] 1 []),
       ServiceCall (itinerary_request (build_prompt [U ''Rome''] 3 [] [] 1 []))])"
proof -
  have i: "init_state rome_session =
      [''cities'' \<mapsto> PStr (U ''Rome''), ''days'' \<mapsto> PInt 3, ''interests'' \<mapsto> PList [],
       ''guardrails'' \<mapsto> PStr [], ''daily_budget'' \<mapsto> PInt 300, ''num_people'' \<mapsto> PInt 1,
       ''ages'' \<mapsto> PStr [], ''plan_md'' \<mapsto> PStr []]"
    by (simp add: init_state_def setdefault_def rome_session_def)
  have c: "entered_cities (U ''Rome'') = [U ''Rome'']"
    by (simp add: entered_cities_def splitlines_def U_Cons U_Nil is_linebreak_def strip_def
        is_whitespace_def)
  have k: "init_state rome_session ''cities'' = Some (PStr (U ''Rome''))"
    "entered_cities (U ''Rome'') \<noteq> []"
    "init_state rome_session ''days'' = Some (PInt 3)"
    "init_state rome_session ''interests'' = Some (PList [])"
    "init_state rome_session ''guardrails'' = Some (PStr [])"
    "init_state rome_session ''num_people'' = Some (PInt 1)"
    "init_state rome_session ''ages'' = Some (PStr [])"
    "build_prompt [U ''Rome''] 3 [] [] 1 [] = build_prompt (entered_cities (U ''Rome'')) 3 [] [] 1 []"
    by (simp_all add: i c)
  have a: "create auth_failing_env r = Inl AuthFailure" for r
    by (simp add: auth_failing_env_def env_with_def)
  have f: "create no_choices_field_env r = Inr None" for r
    by (simp add: no_choices_field_env_def env_with_def)
  have n: "create no_choice_env r = Inr (Some [])" for r
    by (simp add: no_choice_env_def env_with_def)
  have o: "create no_content_env r = Inr (Some (PNone # []))" for r
    by (simp add: no_content_env_def env_with_def)
  have 1: "run_script auth_failing_env True rome_session =
     (Inl (ApiError AuthFailure), init_state rome_session,
      [PromptBuilt (build_prompt [U ''Rome''] 3 [] [] 1 []),
       ServiceCall (itinerary_request (build_prompt [U ''Rome''] 3 [] [] 1 []))])"
    using generation_failure_uncaught [OF k, of auth_failing_env AuthFailure "[]"] a by blast
  have 2: "run_script no_choices_field_env True rome_session =
     (Inl TypeError, init_state rome_session,
      [PromptBuilt (build_prompt [U ''Rome''] 3 [] [] 1 []),
       ServiceCall (itinerary_request (build_prompt [U ''Rome''] 3 [] [] 1 []))])"
    using generation_failure_uncaught [OF k, of no_choices_field_env AuthFailure "[]"] f by blast
  have 3: "run_script no_choice_env True rome_session =
     (Inl IndexError, init_state rome_session,
      [PromptBuilt (build_prompt [U ''Rome''] 3 [] [] 1 []),
       ServiceCall (itinerary_request (build_prompt [U ''Rome''] 3 [] [] 1 []))])"
    using generation_failure_uncaught [OF k, of no_choice_env AuthFailure "[]"] n by blast
  have 4: "run_script no_content_env True rome_session =
     (Inr (), (init_state rome_session)(''plan_md'' \<mapsto> PNone),
      [PromptBuilt (build_prompt [U ''Rome''] 3 [] [] 1 []),
       ServiceCall (itinerary_request (build_prompt [U ''Rome''] 3 [] [] 1 []))])"
    using generation_failure_uncaught [OF k, of no_content_env AuthFailure "[]"] o by blast
  from 1 2 3 4 show ?thesis by (simp only: simp_thms)
qed

section \<open>The prompt\<close>

lemma split_on_newline_from_append_LF:
  "split_on_newline_from cur (a @ LF # b) = split_on_newline_from cur a @ split_on_newline_from [] b"
  by (induction a arbitrary: cur) auto

lemma split_on_newline_append_LF:
  "split_on_newline (a @ LF # b) = split_on_newline a @ split_on_newline b"
  by (simp add: split_on_newline_def split_on_newline_from_append_LF)

lemma split_on_newline_nonempty: "split_on_newline s \<noteq> []"
  by (simp add: split_on_newline_def split_on_newline_from_nonempty)

lemma join_append:
  "xs \<noteq> [] \<Longrightarrow> ys \<noteq> [] \<Longrightarrow> join sep (xs @ ys) = join sep xs @ sep @ join sep ys"
  by (induction sep xs rule: join.induct) (auto simp: neq_Nil_conv)

lemma blanked_append_LF: "blanked (a @ LF # b) = blanked a @ LF # blanked b"
  by (simp add: blanked_def split_on_newline_append_LF join_append split_on_newline_nonempty)

lemma split_on_newline_from_no_LF:
  "LF \<notin> set s \<Longrightarrow> split_on_newline_from cur s = [rev cur @ s]"
  by (induction s arbitrary: cur) auto

lemma split_on_newline_from_cur:
  "split_on_newline_from cur s =
     (rev cur @ hd (split_on_newline_from [] s)) # tl (split_on_newline_from [] s)"
proof (induction s arbitrary: cur)
  case Nil
  show ?case by simp
next
  case (Cons c s)
  show ?case
  proof (cases "c = LF")
    case True
    then show ?thesis by simp
  next
    case False
    then show ?thesis
      using Cons [of "c # cur"] Cons [of "[c]"] by simp
  qed
qed

lemma split_on_newline_prepend:
  "LF \<notin> set p \<Longrightarrow>
   split_on_newline (p @ s) = (p @ hd (split_on_newline s)) # tl (split_on_newline s)"
proof (induction p)
  case Nil
  then show ?case by (simp add: split_on_newline_nonempty)
next
  case (Cons c p)
  then have c: "c \<noteq> LF" by auto
  from Cons have ih: "split_on_newline (p @ s) = (p @ hd (split_on_newline s)) # tl (split_on_newline s)"
    by simp
  have "split_on_newline (c # p @ s) = split_on_newline_from [c] (p @ s)"
    using c by (simp add: split_on_newline_def)
  also have "\<dots> = (c # hd (split_on_newline (p @ s))) # tl (split_on_newline (p @ s))"
    using split_on_newline_from_cur [of "[c]" "p @ s"] by (simp add: split_on_newline_def)
  finally show ?case by (simp add: ih)
qed

lemma join_split_on_newline_from:
  "join [LF] (split_on_newline_from cur s) = rev cur @ s"
proof (induction s arbitrary: cur)
  case Nil
  show ?case by simp
next
  case (Cons c s)
  show ?case
  proof (cases "c = LF")
    case True
    obtain l ls where "split_on_newline_from [] s = l # ls"
      using split_on_newline_from_nonempty [of "[]" s] by (cases "split_on_newline_from [] s") auto
    with Cons [of "[]"] True show ?thesis by simp
  next
    case False
    with Cons [of "c # cur"] show ?thesis by simp
  qed
qed

lemma join_split_on_newline: "join [LF] (split_on_newline s) = s"
  by (simp add: split_on_newline_def join_split_on_newline_from)

lemma blanked_unchanged:
  "list_all (\<lambda>l. \<not> whitespace_only l) (split_on_newline t) \<Longrightarrow> blanked t = t"
proof -
  assume "list_all (\<lambda>l. \<not> whitespace_only l) (split_on_newline t)"
  then have "map empty_whitespace_only (split_on_newline t) = split_on_newline t"
    by (simp add: list_all_iff empty_whitespace_only_def map_idI)
  then show ?thesis by (simp add: blanked_def join_split_on_newline)
qed

lemma blanked_labelled:
  assumes "LF \<notin> set (c # p)" "\<not> is_blank c" "keeps_its_lines t"
  shows "blanked ((c # p) @ t) = (c # p) @ t"
proof (rule blanked_unchanged)
  have "\<not> whitespace_only ((c # p) @ hd (split_on_newline t))"
    using assms(2) by (simp add: whitespace_only_def)
  then show "list_all (\<lambda>l. \<not> whitespace_only l) (split_on_newline ((c # p) @ t))"
    using assms(3) by (simp add: split_on_newline_prepend [OF assms(1)] keeps_its_lines_def del: append.simps)
qed

lemma margin_fold_empty: "foldl margin_step (Some []) xs = Some []"
  by (induction xs) auto

lemma margin_fold_hits_empty:
  "[] \<in> set xs \<Longrightarrow> foldl margin_step m xs = Some []"
proof (induction xs arbitrary: m)
  case Nil
  then show ?case by simp
next
  case (Cons x xs)
  show ?case
  proof (cases "x = []")
    case True
    have "margin_step m [] = Some []" by (cases m) auto
    with True show ?thesis by (simp add: margin_fold_empty)
  next
    case False
    with Cons show ?thesis by simp
  qed
qed

lemma dedent_no_margin:
  assumes "c \<noteq> LF" "\<not> is_blank c"
  shows "dedent (LF # c # s) = blanked (LF # c # s)"
proof -
  let ?ls = "map empty_whitespace_only (split_on_newline (LF # c # s))"
  have "split_on_newline (LF # c # s) = [] # split_on_newline ([c] @ s)"
    by (simp add: split_on_newline_def)
  also have "\<dots> = [] # (c # hd (split_on_newline s)) # tl (split_on_newline s)"
    using assms(1) by (simp add: split_on_newline_prepend del: append.simps)
  finally have sp: "split_on_newline (LF # c # s) =
      [] # (c # hd (split_on_newline s)) # tl (split_on_newline s)" .
  have "empty_whitespace_only (c # hd (split_on_newline s)) = c # hd (split_on_newline s)"
    using assms(2) by (simp add: empty_whitespace_only_def whitespace_only_def)
  then have "[] \<in> set (leading_whitespace ?ls)"
    using assms(2) by (simp add: sp leading_whitespace_def empty_whitespace_only_def whitespace_only_def)
  then have "foldl margin_step None (leading_whitespace ?ls) = Some []"
    by (rule margin_fold_hits_empty)
  then show ?thesis by (simp add: dedent_def blanked_def Let_def)
qed

lemma build_prompt_segments:
  "build_prompt cities days interests guardrails num_people ages =
     LF # blanked (U ''Cities: '' @ join (U '', '') cities) @
     LF # blanked (U ''Days per city: '' @ str_int days) @
     LF # blanked [] @
     LF # blanked (U ''Travel Group:'') @
     LF # blanked (U ''- Number of people: '' @ str_int num_people) @
     LF # blanked (U ''- Ages: '' @ str_or ages (U ''Not specified'')) @
     LF # blanked [] @
     LF # blanked (U ''Interests: '' @ str_or (join (U '', '') interests) (U ''General sightseeing'')) @
     LF # blanked (U ''Guardrails: '' @ str_or guardrails (U ''None'')) @
     LF # blanked [] @
     LF # blanked (U ''Guidelines:'') @
     LF # blanked (U ''- Include kid-friendly or senior-friendly activities if applicable'') @
     LF # blanked (U ''- Avoid physically demanding activities when younger kids or seniors are present'') @
     LF # blanked (U ''- Balance rest and exploration'') @
     LF # blanked [] @
     LF # blanked (U ''Generate a practical itinerary.'') @
     LF # blanked []"
  (is "?bp = ?rhs")
proof -
  let ?T = "[] @
     LF # (U ''Cities: '' @ join (U '', '') cities) @
     LF # (U ''Days per city: '' @ str_int days) @
     LF # [] @
     LF # (U ''Travel Group:'') @
     LF # (U ''- Number of people: '' @ str_int num_people) @
     LF # (U ''- Ages: '' @ str_or ages (U ''Not specified'')) @
     LF # [] @
     LF # (U ''Interests: '' @ str_or (join (U '', '') interests) (U ''General sightseeing'')) @
     LF # (U ''Guardrails: '' @ str_or guardrails (U ''None'')) @
     LF # [] @
     LF # (U ''Guidelines:'') @
     LF # (U ''- Include kid-friendly or senior-friendly activities if applicable'') @
     LF # (U ''- Avoid physically demanding activities when younger kids or seniors are present'') @
     LF # (U ''- Balance rest and exploration'') @
     LF # [] @
     LF # (U ''Generate a practical itinerary.'') @
     LF # []"
  have nl: "U (CHR ''\<newline>'' # cs) = LF # U cs" for cs
    by (simp add: U_Cons LF_def)
  have T: "build_prompt cities days interests guardrails num_people ages = dedent ?T"
    unfolding build_prompt_def by (simp add: nl U_Nil)
  have C: "U ''Cities: '' = 67 # U ''ities: ''" by (simp add: U_Cons)
  have side: "(67::nat) \<noteq> LF" "\<not> is_blank 67"
    by (simp_all add: LF_def is_blank_def)
  have "dedent ?T = blanked ?T"
    unfolding C by (simp add: dedent_no_margin side)
  also have "\<dots> = ?rhs"
    by (simp only: blanked_append_LF) (simp add: blanked_def split_on_newline_def empty_whitespace_only_def whitespace_only_def)
  finally show ?thesis using T by simp
qed

lemma contains_here: "contains (p @ r) p"
  by (simp add: contains_def)

lemma contains_skip_Cons: "contains s p \<Longrightarrow> contains (c # s) p"
  by (auto simp: contains_def sublist_Cons_right)

lemma contains_skip_append: "contains s p \<Longrightarrow> contains (a @ s) p"
  by (induction a) (auto simp: contains_skip_Cons)

lemma contains_part: "contains s (a @ p @ b) \<Longrightarrow> contains s p"
  by (auto simp: contains_def sublist_def) (metis append.assoc)

lemma keeps_its_lines_no_LF: "LF \<notin> set t \<Longrightarrow> keeps_its_lines t"
  by (simp add: keeps_its_lines_def split_on_newline_def split_on_newline_from_no_LF)

lemma contains_segment: "contains s p \<Longrightarrow> contains (LF # b @ s) p"
  by (simp add: contains_skip_Cons contains_skip_append)

lemma contains_found: "contains (LF # p @ r) p"
  by (simp add: contains_skip_Cons contains_here)

lemma blanked_labelled_literal:
  assumes "label = c # p" "LF \<notin> set label" "\<not> is_blank c" "keeps_its_lines t"
  shows "blanked (label @ t) = label @ t"
  using blanked_labelled [of c p t] assms by simp

lemma prompt_has_ages:
  assumes "keeps_its_lines (str_or ages (U ''Not specified''))"
  shows "contains (build_prompt cities days interests guardrails num_people ages)
           (U ''- Ages: '' @ str_or ages (U ''Not specified''))"
proof -
  have "blanked (U ''- Ages: '' @ str_or ages (U ''Not specified'')) =
      U ''- Ages: '' @ str_or ages (U ''Not specified'')"
    by (rule blanked_labelled_literal [OF _ _ _ assms, where c = 45])
      (simp_all add: U_Cons U_Nil LF_def is_blank_def)
  then show ?thesis
    unfolding build_prompt_segments
    apply (simp only:)
    apply (rule contains_segment, rule contains_segment, rule contains_segment,
        rule contains_segment, rule contains_segment)
    apply (rule contains_found)
    done
qed

lemma prompt_has_interests:
  assumes "keeps_its_lines (str_or (join (U '', '') interests) (U ''General sightseeing''))"
  shows "contains (build_prompt cities days interests guardrails num_people ages)
           (U ''Interests: '' @ str_or (join (U '', '') interests) (U ''General sightseeing''))"
proof -
  have "blanked (U ''Interests: '' @ str_or (join (U '', '') interests) (U ''General sightseeing'')) =
      U ''Interests: '' @ str_or (join (U '', '') interests) (U ''General sightseeing'')"
    by (rule blanked_labelled_literal [OF _ _ _ assms, where c = 73])
      (simp_all add: U_Cons U_Nil LF_def is_blank_def)
  then show ?thesis
    unfolding build_prompt_segments
    apply (simp only:)
    apply (rule contains_segment, rule contains_segment, rule contains_segment,
        rule contains_segment, rule contains_segment, rule contains_segment, rule contains_segment)
    apply (rule contains_found)
    done
qed

lemma prompt_has_guardrails:
  assumes "keeps_its_lines (str_or guardrails (U ''None''))"
  shows "contains (build_prompt cities days interests guardrails num_people ages)
           (U ''Guardrails: '' @ str_or guardrails (U ''None''))"
proof -
  have "blanked (U ''Guardrails: '' @ str_or guardrails (U ''None'')) =
      U ''Guardrails: '' @ str_or guardrails (U ''None'')"
    by (rule blanked_labelled_literal [OF _ _ _ assms, where c = 71])
      (simp_all add: U_Cons U_Nil LF_def is_blank_def)
  then show ?thesis
    unfolding build_prompt_segments
    apply (simp only:)
    apply (rule contains_segment, rule contains_segment, rule contains_segment,
        rule contains_segment, rule contains_segment, rule contains_segment, rule contains_segment,
        rule contains_segment)
    apply (rule contains_found)
    done
qed

lemma contains_suffix_part: "contains s (a @ p) \<Longrightarrow> contains s p"
  using contains_part [of s a p "[]"] by simp

lemma keeps_literals:
  "keeps_its_lines (U ''Not specified'')" "keeps_its_lines (U ''General sightseeing'')"
  "keeps_its_lines (U ''None'')"
  by (rule keeps_its_lines_no_LF, simp add: U_Cons U_Nil LF_def)+

lemma blanked_eval:
  "blanked t = join [LF] (map empty_whitespace_only (split_on_newline_from [] t))"
  by (simp add: blanked_def split_on_newline_def)

lemma prefix_Cons_num: "prefix (x # xs) (y # ys) \<longleftrightarrow> x = y \<and> prefix xs ys"
  by simp

text \<open>
  C5, as the code has it. The prompt holds the literal \<open>Not specified\<close> when ages is
  empty, \<open>General sightseeing\<close> when interests is empty (more exactly when the joined
  interests are the empty string) and \<open>None\<close> when guardrails is empty. A field that is
  not empty stands in the prompt after its label as it was given, provided that none of
  its lines after the first is made of spaces and tabs only: \<open>dedent\<close> runs on the text
  after the interpolation and empties such lines.
\<close>

theorem prompt_fallbacks_and_fields:
  "(ages = [] \<longrightarrow>
      contains (build_prompt cities days interests guardrails num_people ages) (U ''Not specified'')) \<and>
   (interests = [] \<longrightarrow>
      contains (build_prompt cities days interests guardrails num_people ages) (U ''General sightseeing'')) \<and>
   (guardrails = [] \<longrightarrow>
      contains (build_prompt cities days interests guardrails num_people ages) (U ''None'')) \<and>
   (ages \<noteq> [] \<and> keeps_its_lines ages \<longrightarrow>
      contains (build_prompt cities days interests guardrails num_people ages) (U ''- Ages: '' @ ages)) \<and>
   (join (U '', '') interests \<noteq> [] \<and> keeps_its_lines (join (U '', '') interests) \<longrightarrow>
      contains (build_prompt cities days interests guardrails num_people ages)
        (U ''Interests: '' @ join (U '', '') interests)) \<and>
   (join (U '', '') interests = [] \<longrightarrow>
      contains (build_prompt cities days interests guardrails num_people ages)
        (U ''Interests: '' @ U ''General sightseeing'')) \<and>
   (guardrails \<noteq> [] \<and> keeps_its_lines guardrails \<longrightarrow>
      contains (build_prompt cities days interests guardrails num_people ages)
        (U ''Guardrails: '' @ guardrails))"
proof (intro conjI impI)
  assume "ages = []"
  then show "contains (build_prompt cities days interests guardrails num_people ages) (U ''Not specified'')"
    using prompt_has_ages [of ages cities days interests guardrails num_people] keeps_literals
    by (auto simp: str_or_def dest: contains_suffix_part)
next
  assume "interests = []"
  then show "contains (build_prompt cities days interests guardrails num_people ages) (U ''General sightseeing'')"
    using prompt_has_interests [of interests cities days guardrails num_people ages] keeps_literals
    by (auto simp: str_or_def dest: contains_suffix_part)
next
  assume "guardrails = []"
  then show "contains (build_prompt cities days interests guardrails num_people ages) (U ''None'')"
    using prompt_has_guardrails [of guardrails cities days interests num_people ages] keeps_literals
    by (auto simp: str_or_def dest: contains_suffix_part)
next
  assume "ages \<noteq> [] \<and> keeps_its_lines ages"
  then show "contains (build_prompt cities days interests guardrails num_people ages) (U ''- Ages: '' @ ages)"
    using prompt_has_ages [of ages cities days interests guardrails num_people]
    by (simp add: str_or_def)
next
  assume "join (U '', '') interests \<noteq> [] \<and> keeps_its_lines (join (U '', '') interests)"
  then show "contains (build_prompt cities days interests guardrails num_people ages)
        (U ''Interests: '' @ join (U '', '') interests)"
    using prompt_has_interests [of interests cities days guardrails num_people ages]
    by (simp add: str_or_def)
next
  assume "join (U '', '') interests = []"
  then show "contains (build_prompt cities days interests guardrails num_people ages)
        (U ''Interests: '' @ U ''General sightseeing'')"
    using prompt_has_interests [of interests cities days guardrails num_people ages] keeps_literals
    by (simp add: str_or_def)
next
  assume "guardrails \<noteq> [] \<and> keeps_its_lines guardrails"
  then show "contains (build_prompt cities days interests guardrails num_people ages)
        (U ''Guardrails: '' @ guardrails)"
    using prompt_has_guardrails [of guardrails cities days interests num_people ages]
    by (simp add: str_or_def)
qed

theorem prompt_fallbacks_and_fields_witness:
  "contains (build_prompt [U ''Rome''] 3 [] [] 1 []) (U ''Not specified'') \<and>
   contains (build_prompt [U ''Rome''] 3 [] [] 1 []) (U ''General sightseeing'') \<and>
   contains (build_prompt [U ''Rome''] 3 [] [] 1 []) (U ''None'') \<and>
   contains (build_prompt [U ''Rome''] 3 [] [] 1 []) (U ''Interests: '' @ U ''General sightseeing'') \<and>
   contains
     (build_prompt [U ''Rome''] 3 [U ''Museums'', U ''Nature'']
        (U ''No walking tours\<newline>kid-friendly only'') 2 (U ''5, 34''))
     (U ''- Ages: '' @ U ''5, 34'') \<and>
   contains
     (build_prompt [U ''Rome''] 3 [U ''Museums'', U ''Nature'']
        (U ''No walking tours\<newline>kid-friendly only'') 2 (U ''5, 34''))
     (U ''Interests: '' @ join (U '', '') [U ''Museums'', U ''Nature'']) \<and>
   contains
     (build_prompt [U ''Rome''] 3 [U ''Museums'', U ''Nature'']
        (U ''No walking tours\<newline>kid-friendly only'') 2 (U ''5, 34''))
     (U ''Guardrails: '' @ U ''No walking tours\<newline>kid-friendly only'')"
proof -
  have a: "U ''5, 34'' \<noteq> [] \<and> keeps_its_lines (U ''5, 34'')"
    by (simp add: keeps_its_lines_def split_on_newline_def U_Cons U_Nil LF_def)
  have i: "join (U '', '') [U ''Museums'', U ''Nature''] \<noteq> [] \<and>
      keeps_its_lines (join (U '', '') [U ''Museums'', U ''Nature''])"
    by (simp add: keeps_its_lines_def split_on_newline_def U_Cons U_Nil LF_def)
  have g: "U ''No walking tours\<newline>kid-friendly only'' \<noteq> [] \<and>
      keeps_its_lines (U ''No walking tours\<newline>kid-friendly only'')"
    by (simp add: keeps_its_lines_def split_on_newline_def U_Cons U_Nil LF_def whitespace_only_def
        is_blank_def)
  have j: "join (U '', '') [] = []" by simp
  from a i g j
    prompt_fallbacks_and_fields [of "[]" "[U ''Rome'']" 3 "[]" "[]" 1]
    prompt_fallbacks_and_fields [of "U ''5, 34''" "[U ''Rome'']" 3 "[U ''Museums'', U ''Nature'']"
      "U ''No walking tours\<newline>kid-friendly only''" 2]
  show ?thesis by blast
qed

text \<open>
  C5 as it is stated fails: a guardrails text with a line of one space is not in the
  prompt; the prompt is the one built from the text with that line emptied.
\<close>

theorem blank_line_not_verbatim:
  "U ''a\<newline> \<newline>b'' \<noteq> [] \<and>
   \<not> contains (build_prompt [U ''Rome''] 3 [] (U ''a\<newline> \<newline>b'') 1 []) (U ''a\<newline> \<newline>b'') \<and>
   build_prompt [U ''Rome''] 3 [] (U ''a\<newline> \<newline>b'') 1 [] =
     build_prompt [U ''Rome''] 3 [] (U ''a\<newline>\<newline>b'') 1 []"
proof -
  have g: "blanked (U ''Guardrails: '' @ str_or (U ''a\<newline> \<newline>b'') (U ''None'')) =
      U ''Guardrails: a\<newline>\<newline>b''"
    by (simp add: blanked_eval str_or_def U_Cons U_Nil LF_def empty_whitespace_only_def
        whitespace_only_def is_blank_def)
  have g': "blanked (U ''Guardrails: '' @ str_or (U ''a\<newline>\<newline>b'') (U ''None'')) =
      U ''Guardrails: a\<newline>\<newline>b''"
    by (simp add: blanked_eval str_or_def U_Cons U_Nil LF_def empty_whitespace_only_def
        whitespace_only_def is_blank_def)
  have eq: "build_prompt [U ''Rome''] 3 [] (U ''a\<newline> \<newline>b'') 1 [] =
     build_prompt [U ''Rome''] 3 [] (U ''a\<newline>\<newline>b'') 1 []"
    by (simp only: build_prompt_segments g g')
  have n: "\<not> contains (build_prompt [U ''Rome''] 3 [] (U ''a\<newline> \<newline>b'') 1 []) (U ''a\<newline> \<newline>b'')"
    unfolding build_prompt_segments g
    by (simp add: contains_def blanked_eval str_or_def str_int_def digits_of.simps U_Cons U_Nil LF_def
        empty_whitespace_only_def whitespace_only_def is_blank_def sublist_code)
  show ?thesis using eq n by (simp add: U_Cons)
qed

section \<open>Markers without their space\<close>

lemma SYSTEM_PROMPT_lines:
  "split_on_newline SYSTEM_PROMPT =
     [[], U ''You are a professional travel planner.'',
      U ''Create a realistic, day-by-day itinerary.'',
      U ''Adapt activities based on ages (kids, adults, seniors).'',
      U ''Respect guardrails strictly.'', [], U ''Format:'', [], U ''## City Name'',
      U ''### Day 1'', U ''- Morning:'', U ''- Afternoon:'', U ''- Evening:'', []]"
proof -
  have side: "(89::nat) \<noteq> LF" "\<not> is_blank 89"
    by (simp_all add: LF_def is_blank_def)
  have e: "SYSTEM_PROMPT = dedent (LF # 89 # U (
     ''ou are a professional travel planner.'' @
     ''\<newline>Create a realistic, day-by-day itinerary.'' @
     ''\<newline>Adapt activities based on ages (kids, adults, seniors).'' @
     ''\<newline>Respect guardrails strictly.'' @
     ''\<newline>'' @
     ''\<newline>Format:'' @
     ''\<newline>'' @
     ''\<newline>## City Name'' @
     ''\<newline>### Day 1'' @
     ''\<newline>- Morning:'' @
     ''\<newline>- Afternoon:'' @
     ''\<newline>- Evening:'' @
     ''\<newline>''))"
    by (simp add: SYSTEM_PROMPT_def U_Cons LF_def)
  show ?thesis
    unfolding e dedent_no_margin [OF side]
    by (simp add: blanked_eval split_on_newline_def U_Cons U_Nil LF_def
        empty_whitespace_only_def whitespace_only_def is_blank_def)
qed

text \<open>
  C9, as the code has it. The classifier needs the space of its markers. A line that
  starts with \<open>##\<close> but not with \<open>##\<close> and a space goes to the plain-paragraph branch,
  and so does a line that starts with \<open>-\<close> but not with \<open>-\<close> and a space: it becomes a
  body paragraph holding the whole line when the library's parser accepts the line, and
  raises \<open>ValueError\<close> otherwise. In particular a level-3 heading line is treated so, and
  the format template of the system prompt asks for such a line, \<open>### Day 1\<close>.
\<close>

theorem marker_needs_space:
  "(startswith line (U ''##'') \<and> \<not> startswith line (U ''## '') \<longrightarrow>
      line_block accepts line =
        (if accepts line then Inr (Paragraph line BodyText) else Inl ValueError)) \<and>
   (startswith line (U ''-'') \<and> \<not> startswith line (U ''- '') \<longrightarrow>
      line_block accepts line =
        (if accepts line then Inr (Paragraph line BodyText) else Inl ValueError)) \<and>
   line_block accepts (U ''### '' @ t) =
     (if accepts (U ''### '' @ t) then Inr (Paragraph (U ''### '' @ t) BodyText)
      else Inl ValueError) \<and>
   U ''### Day 1'' \<in> set (split_on_newline SYSTEM_PROMPT) \<and>
   markdown_to_flowables accepts (U ''### Day 1'') =
     (if accepts (U ''### Day 1'') then Inr [Paragraph (U ''### Day 1'') BodyText, Spacer 1 4]
      else Inl ValueError)"
proof (intro conjI impI)
  assume a: "startswith line (U ''##'') \<and> \<not> startswith line (U ''## '')"
  then obtain r where r: "line = 35 # 35 # r"
    by (auto simp: startswith_def U_Cons U_Nil prefix_def)
  with a show "line_block accepts line =
      (if accepts line then Inr (Paragraph line BodyText) else Inl ValueError)"
    by (simp add: line_block_def new_paragraph_def U_Cons U_Nil startswith_Cons startswith_Nil)
next
  assume a: "startswith line (U ''-'') \<and> \<not> startswith line (U ''- '')"
  then obtain r where r: "line = 45 # r"
    by (auto simp: startswith_def U_Cons U_Nil prefix_def)
  with a show "line_block accepts line =
      (if accepts line then Inr (Paragraph line BodyText) else Inl ValueError)"
    by (simp add: line_block_def new_paragraph_def U_Cons U_Nil startswith_Cons startswith_Nil)
next
  show "line_block accepts (U ''### '' @ t) =
     (if accepts (U ''### '' @ t) then Inr (Paragraph (U ''### '' @ t) BodyText)
      else Inl ValueError)"
    by (simp add: line_block_def new_paragraph_def U_Cons U_Nil startswith_Cons startswith_Nil)
next
  show "U ''### Day 1'' \<in> set (split_on_newline SYSTEM_PROMPT)"
    by (simp add: SYSTEM_PROMPT_lines)
next
  show "markdown_to_flowables accepts (U ''### Day 1'') =
     (if accepts (U ''### Day 1'') then Inr [Paragraph (U ''### Day 1'') BodyText, Spacer 1 4]
      else Inl ValueError)"
    by (simp add: markdown_to_flowables_def splitlines_def line_block_def new_paragraph_def
        and_then_def U_Cons U_Nil is_linebreak_def startswith_Cons startswith_Nil)
qed

theorem marker_needs_space_witness:
  "startswith (U ''##Rome'') (U ''##'') \<and> \<not> startswith (U ''##Rome'') (U ''## '') \<and>
   sample_parser (U ''##Rome'') \<and>
   line_block sample_parser (U ''##Rome'') = Inr (Paragraph (U ''##Rome'') BodyText) \<and>
   startswith (U ''-Morning'') (U ''-'') \<and> \<not> startswith (U ''-Morning'') (U ''- '') \<and>
   sample_parser (U ''-Morning'') \<and>
   line_block sample_parser (U ''-Morning'') = Inr (Paragraph (U ''-Morning'') BodyText) \<and>
   sample_parser (U ''### Day 1'') \<and>
   markdown_to_flowables sample_parser (U ''### Day 1'') =
     Inr [Paragraph (U ''### Day 1'') BodyText, Spacer 1 4]"
proof -
  have 1: "startswith (U ''##Rome'') (U ''##'') \<and> \<not> startswith (U ''##Rome'') (U ''## '')"
    by (simp add: U_Cons U_Nil startswith_Cons startswith_Nil)
  have 2: "startswith (U ''-Morning'') (U ''-'') \<and> \<not> startswith (U ''-Morning'') (U ''- '')"
    by (simp add: U_Cons U_Nil startswith_Cons startswith_Nil)
  have 3: "sample_parser (U ''##Rome'')" "sample_parser (U ''-Morning'')"
    "sample_parser (U ''### Day 1'')"
    by (simp_all add: sample_parser_def U_Cons U_Nil contains_Cons contains_Nil)
  from 1 2 3 marker_needs_space [of "U ''##Rome''" sample_parser "U ''Day 1''"]
    marker_needs_space [of "U ''-Morning''" sample_parser "U ''Day 1''"]
  show ?thesis by (simp only: simp_thms if_True)
qed

text \<open>
  C9 as it is stated fails: a level-3 heading line whose text opens a bold tag and never
  closes it is not rendered as a plain paragraph; the renderer raises \<open>ValueError\<close> on it.
\<close>

theorem unparsed_marker_line_raises:
  "startswith (U ''### <b>Day 1'') (U ''##'') \<and> \<not> startswith (U ''### <b>Day 1'') (U ''## '') \<and>
   line_block sample_parser (U ''### <b>Day 1'') = Inl ValueError \<and>
   markdown_to_flowables sample_parser (U ''### <b>Day 1'') = Inl ValueError"
  by (simp add: markdown_to_flowables_def splitlines_def line_block_def new_paragraph_def
      and_then_def sample_parser_def U_Cons U_Nil is_linebreak_def startswith_Cons
      startswith_Nil contains_Cons contains_Nil)

section \<open>Rounding to binary64\<close>


lemma round_half_even_nearest:
  assumes "\<bar>q - of_int n\<bar> < 1 / 2"
  shows "round_half_even q = n"
proof -
  have b: "of_int \<lfloor>q\<rfloor> \<le> q" "q < of_int \<lfloor>q\<rfloor> + 1" by linarith+
  have "of_int n - 1 < of_int \<lfloor>q\<rfloor> + (1::rat)" "of_int \<lfloor>q\<rfloor> < of_int n + (1::rat)"
    using assms b by linarith+
  then have "n - 1 < \<lfloor>q\<rfloor> + 1" "\<lfloor>q\<rfloor> < n + 1"
    by (metis of_int_less_iff of_int_diff of_int_add of_int_1)+
  then have c: "\<lfloor>q\<rfloor> = n \<or> \<lfloor>q\<rfloor> = n - 1" by linarith
  show ?thesis
  proof (cases "\<lfloor>q\<rfloor> = n")
    case True
    with assms b show ?thesis by (simp add: round_half_even_def Let_def)
  next
    case False
    with c have f: "\<lfloor>q\<rfloor> = n - 1" by simp
    have "q - (of_int n - 1) > 1 / 2" using assms by linarith
    with f show ?thesis by (simp add: round_half_even_def Let_def)
  qed
qed



lemma bitlen_lower: "0 < m \<Longrightarrow> (2::int) ^ nat (bitlen m - 1) \<le> m"
  using bitlen_bounds [of m] by simp

lemma bitlen_upper: "0 < m \<Longrightarrow> m + 1 \<le> (2::int) ^ (nat (bitlen m - 1) + 1)"
proof -
  assume m: "0 < m"
  then have "1 \<le> bitlen m" using bitlen_eq_zero_iff [of m] bitlen_nonneg [of m] by linarith
  then have "nat (bitlen m - 1) + 1 = nat (bitlen m)" by simp
  with bitlen_bounds [OF m] show ?thesis by simp
qed

lemma floor_pow2_bounds:
  fixes y :: rat
  assumes "1 \<le> y"
  defines "k \<equiv> nat (bitlen \<lfloor>y\<rfloor> - 1)"
  shows "2 ^ k \<le> y" "y < 2 ^ (k + 1)"
proof -
  have m: "0 < \<lfloor>y\<rfloor>" using assms(1) by simp
  have "(2::int) ^ k \<le> \<lfloor>y\<rfloor>"
    using bitlen_lower [OF m] unfolding k_def .
  then have "of_int ((2::int) ^ k) \<le> y" by (simp only: le_floor_iff)
  then show "2 ^ k \<le> y" by simp
  have "\<lfloor>y\<rfloor> < (2::int) ^ (k + 1)"
    using bitlen_upper [OF m] unfolding k_def by linarith
  then have "y < of_int ((2::int) ^ (k + 1))" by (simp only: floor_less_iff)
  then show "y < 2 ^ (k + 1)" by simp
qed

lemma exponent_of_bounds:
  assumes "0 < x"
  shows "power_int 2 (exponent_of x) \<le> x \<and> x < power_int 2 (exponent_of x + 1)"
proof (cases "1 \<le> x")
  case True
  define k where "k = nat (bitlen \<lfloor>x\<rfloor> - 1)"
  have m: "0 < \<lfloor>x\<rfloor>" using True by simp
  then have "1 \<le> bitlen \<lfloor>x\<rfloor>" using bitlen_eq_zero_iff [of "\<lfloor>x\<rfloor>"] bitlen_nonneg [of "\<lfloor>x\<rfloor>"] by linarith
  then have e: "exponent_of x = int k" using True by (simp add: exponent_of_def k_def)
  from floor_pow2_bounds [OF True] have "2 ^ k \<le> x" "x < 2 ^ (k + 1)" by (simp_all add: k_def)
  then show ?thesis unfolding e
    by (simp add: power_int_def nat_add_distrib)
next
  case False
  define y where "y = 1 / x"
  have y: "1 \<le> y" "0 < y" "x = 1 / y" using False assms by (simp_all add: y_def)
  define k where "k = nat (bitlen \<lfloor>y\<rfloor> - 1)"
  have m: "0 < \<lfloor>y\<rfloor>" using y by simp
  then have "1 \<le> bitlen \<lfloor>y\<rfloor>" using bitlen_eq_zero_iff [of "\<lfloor>y\<rfloor>"] bitlen_nonneg [of "\<lfloor>y\<rfloor>"] by linarith
  then have ik: "bitlen \<lfloor>y\<rfloor> - 1 = int k" by (simp add: k_def)
  from floor_pow2_bounds [OF y(1)] have b: "2 ^ k \<le> y" "y < 2 ^ (k + 1)" by (simp_all add: k_def)
  have lo: "1 / 2 ^ (k + 1) < x" using b(2) y(2) unfolding y(3)
    by (simp add: field_simps)
  have hi: "x \<le> 1 / 2 ^ k" using b(1) y(2) unfolding y(3)
    by (simp add: field_simps)
  have e: "exponent_of x = (if x * 2 ^ k = 1 then - int k else - int k - 1)"
    using False by (simp add: exponent_of_def y_def [symmetric] ik Let_def)
  show ?thesis
  proof (cases "x * 2 ^ k = 1")
    case True
    then have x: "x = 1 / 2 ^ k" by (simp add: field_simps)
    have "power_int (2::rat) (- int k) = 1 / 2 ^ k"
      by (simp add: power_int_minus_divide)
    moreover have "power_int (2::rat) (- int k + 1) = 2 / 2 ^ k"
      using power_int_add_1 [of "2::rat" "- int k"] by (simp add: power_int_minus_divide)
    moreover have "(1::rat) / 2 ^ k < 2 / 2 ^ k"
      by (simp add: divide_strict_right_mono)
    ultimately show ?thesis using True e x by simp
  next
    case F: False
    then have "x \<noteq> 1 / 2 ^ k" by (auto simp: field_simps)
    with hi have hi': "x < 1 / 2 ^ k" by simp
    have "- int k - 1 = - int (k + 1)" by simp
    then have "power_int (2::rat) (- int k - 1) = 1 / 2 ^ (k + 1)"
      by (simp only: power_int_minus_divide power_int_of_nat)
    moreover have "power_int (2::rat) (- int k - 1 + 1) = 1 / 2 ^ k"
      by (simp add: power_int_minus_divide)
    ultimately show ?thesis using F e lo hi' by simp
  qed
qed


lemma exponent_of_unique:
  assumes "0 < x" "power_int 2 e \<le> x" "x < power_int 2 (e + 1)"
  shows "exponent_of x = e"
proof (rule ccontr)
  assume ne: "exponent_of x \<noteq> e"
  from exponent_of_bounds [OF assms(1)]
  have b: "power_int 2 (exponent_of x) \<le> x" "x < power_int 2 (exponent_of x + 1)" by simp_all
  show False
  proof (cases "exponent_of x < e")
    case True
    then have "power_int (2::rat) (exponent_of x + 1) \<le> power_int 2 e"
      by (intro power_int_increasing) simp_all
    with b(2) assms(2) show False by linarith
  next
    case False
    with ne have "e + 1 \<le> exponent_of x" by simp
    then have "power_int (2::rat) (e + 1) \<le> power_int 2 (exponent_of x)"
      by (intro power_int_increasing) simp_all
    with b(1) assms(3) show False by linarith
  qed
qed

lemma round_binary64_normal:
  assumes "x \<noteq> 0" "power_int 2 e \<le> \<bar>x\<bar>" "\<bar>x\<bar> < power_int 2 (e + 1)" "- 1022 \<le> e"
    "\<bar>x / power_int 2 (e - 52) - of_int n\<bar> < 1 / 2"
    "\<bar>of_int n * power_int 2 (e - 52)\<bar> < power_int (2::rat) 1024"
  shows "round_binary64 x = Finite (of_int n * power_int 2 (e - 52))"
proof -
  have "exponent_of \<bar>x\<bar> = e"
    using assms(1-3) by (intro exponent_of_unique) simp_all
  then have m: "max (exponent_of \<bar>x\<bar>) (- 1022) = e" using assms(4) by simp
  have r: "round_half_even (x / power_int 2 (e - 52)) = n"
    by (rule round_half_even_nearest [OF assms(5)])
  show ?thesis
    using assms(1,6) unfolding round_binary64_def m Let_def r by simp
qed


lemma round_binary64_zero: "round_binary64 0 = Finite 0"
  by (simp add: round_binary64_def)

lemma round_half_even_int: "round_half_even (of_int k) = k"
  by (simp add: round_half_even_def)

lemma round_binary64_int:
  assumes "x = of_int i" "\<bar>i\<bar> < 2 ^ 53"
  shows "round_binary64 x = Finite x"
proof (cases "i = 0")
  case True
  with assms show ?thesis by (simp add: round_binary64_zero)
next
  case False
  then have x0: "x \<noteq> 0" "0 < \<bar>x\<bar>" "1 \<le> \<bar>x\<bar>" using assms(1) by auto
  define E where "E = exponent_of \<bar>x\<bar>"
  from exponent_of_bounds [OF x0(2)]
  have b: "power_int 2 E \<le> \<bar>x\<bar>" "\<bar>x\<bar> < power_int 2 (E + 1)" by (simp_all add: E_def)
  have E0: "0 \<le> E"
  proof (rule ccontr)
    assume "\<not> 0 \<le> E"
    then have "E + 1 \<le> 0" by simp
    then have "power_int (2::rat) (E + 1) \<le> power_int 2 0"
      by (intro power_int_increasing) simp_all
    with b(2) x0(3) show False by simp
  qed
  have "\<bar>x\<bar> < 2 ^ 53"
    using assms by (metis of_int_abs of_int_less_iff of_int_numeral of_int_power)
  then have E52: "E \<le> 52"
  proof -
    assume lt: "\<bar>x\<bar> < 2 ^ 53"
    show ?thesis
    proof (rule ccontr)
      assume "\<not> E \<le> 52"
      then have "53 \<le> E" by simp
      then have "power_int (2::rat) 53 \<le> power_int 2 E"
        by (intro power_int_increasing) simp_all
      with b(1) lt show False by simp
    qed
  qed
  have m: "max (exponent_of \<bar>x\<bar>) (- 1022) = E" using E0 by (simp add: E_def)
  define k where "k = nat (52 - E)"
  have ulp: "power_int (2::rat) (E - 52) = 1 / 2 ^ k"
  proof -
    have "E - 52 = - int k" using E52 by (simp add: k_def)
    then show ?thesis by (simp only: power_int_minus_divide power_int_of_nat)
  qed
  have q: "x / power_int 2 (E - 52) = of_int (i * 2 ^ k)"
    by (simp add: ulp assms(1))
  have r: "of_int (round_half_even (x / power_int 2 (E - 52))) * power_int 2 (E - 52) = x"
    unfolding q round_half_even_int by (simp add: ulp assms(1))
  have "\<bar>x\<bar> < power_int 2 1024"
    using \<open>\<bar>x\<bar> < 2 ^ 53\<close> by simp
  then show ?thesis
    using x0(1) unfolding round_binary64_def m Let_def r by simp
qed

lemma int_to_float_small: "\<bar>i\<bar> < 2 ^ 53 \<Longrightarrow> int_to_float i = Inr (Finite (of_int i))"
  by (simp add: int_to_float_def round_binary64_int)

lemma literal_04: "float_literal (4 / 10) = Finite (3602879701896397 / 9007199254740992)"
  unfolding float_literal_def
  using round_binary64_normal [of "4 / 10" "- 2" 7205759403792794] by simp

lemma literal_025: "float_literal (25 / 100) = Finite (1 / 4)"
  unfolding float_literal_def
  using round_binary64_normal [of "25 / 100" "- 2" 4503599627370496] by simp

lemma literal_015: "float_literal (15 / 100) = Finite (5404319552844595 / 36028797018963968)"
  unfolding float_literal_def
  using round_binary64_normal [of "15 / 100" "- 3" 5404319552844595] by simp

lemma literal_02: "float_literal (2 / 10) = Finite (3602879701896397 / 18014398509481984)"
  unfolding float_literal_def
  using round_binary64_normal [of "2 / 10" "- 3" 7205759403792794] by simp

section \<open>The budget of the two-city scenario\<close>

lemma weighted_600_04: "weighted (PyInt 600) (4 / 10) (PyInt 6) = Inr (Finite 1440)"
proof -
  have 1: "round_binary64 (600 * (3602879701896397 / 9007199254740992)) = Finite 240"
    using round_binary64_normal [of "600 * (3602879701896397 / 9007199254740992)" 7 "240 * 2 ^ 45"]
    by simp
  have 2: "round_binary64 (240 * 6) = Finite 1440"
    using round_binary64_int [of "240 * 6" 1440] by simp
  show ?thesis
    using literal_04 1 2 by (simp add: weighted_def times_float_def float_times_def as_float_def and_then_def
        int_to_float_small)
qed

lemma weighted_600_025: "weighted (PyInt 600) (25 / 100) (PyInt 6) = Inr (Finite 900)"
proof -
  have 1: "round_binary64 (600 * (1 / 4)) = Finite 150"
    using round_binary64_int [of "600 * (1 / 4)" 150] by simp
  have 2: "round_binary64 (150 * 6) = Finite 900"
    using round_binary64_int [of "150 * 6" 900] by simp
  show ?thesis
    using literal_025 1 2 by (simp add: weighted_def times_float_def float_times_def as_float_def and_then_def
        int_to_float_small)
qed

lemma weighted_600_015: "weighted (PyInt 600) (15 / 100) (PyInt 6) = Inr (Finite 540)"
proof -
  have 1: "round_binary64 (600 * (5404319552844595 / 36028797018963968)) = Finite 90"
    using round_binary64_normal [of "600 * (5404319552844595 / 36028797018963968)" 6 "90 * 2 ^ 46"]
    by simp
  have 2: "round_binary64 (90 * 6) = Finite 540"
    using round_binary64_int [of "90 * 6" 540] by simp
  show ?thesis
    using literal_015 1 2 by (simp add: weighted_def times_float_def float_times_def as_float_def and_then_def
        int_to_float_small)
qed

lemma weighted_600_02: "weighted (PyInt 600) (2 / 10) (PyInt 6) = Inr (Finite 720)"
proof -
  have 1: "round_binary64 (600 * (3602879701896397 / 18014398509481984)) = Finite 120"
    using round_binary64_normal [of "600 * (3602879701896397 / 18014398509481984)" 6 "120 * 2 ^ 46"]
    by simp
  have 2: "round_binary64 (120 * 6) = Finite 720"
    using round_binary64_int [of "120 * 6" 720] by simp
  show ?thesis
    using literal_02 1 2 by (simp add: weighted_def times_float_def float_times_def as_float_def and_then_def
        int_to_float_small)
qed

lemma fadd_exact:
  "a + b = of_int i \<Longrightarrow> \<bar>i\<bar> < 2 ^ 53 \<Longrightarrow> fadd (Finite a) (Finite b) = Finite (a + b)"
  using round_binary64_int [of "a + b" i] by simp

lemma sum_scenario:
  "py_sum version [Finite 1440, Finite 900, Finite 540, Finite 720] = PyFloat (Finite 3600)"
proof -
  have 1: "fadd (Finite 0) (Finite 1440) = Finite 1440"
    using fadd_exact [of 0 1440 1440] by simp
  have 2: "fadd (Finite 1440) (Finite 900) = Finite 2340"
    using fadd_exact [of 1440 900 2340] by simp
  have 3: "fadd (Finite 2340) (Finite 540) = Finite 2880"
    using fadd_exact [of 2340 540 2880] by simp
  have 4: "fadd (Finite 2880) (Finite 720) = Finite 3600"
    using fadd_exact [of 2880 720 3600] by simp
  have plain: "py_sum PlainSum [Finite 1440, Finite 900, Finite 540, Finite 720] = PyFloat (Finite 3600)"
    by (simp add: py_sum_def 1 2 3 4 del: fadd.simps)
  have z: "fadd (Finite 0) (Finite 0) = Finite 0"
    using fadd_exact [of 0 0 0] by simp
  have 5: "fadd (Finite 1440) (Finite (- 2340)) = Finite (- 900)"
    using fadd_exact [of 1440 "- 2340" "- 900"] by simp
  have 6: "fadd (Finite (- 900)) (Finite 900) = Finite 0"
    using fadd_exact [of "- 900" 900 0] by simp
  have 7: "fadd (Finite 2340) (Finite (- 2880)) = Finite (- 540)"
    using fadd_exact [of 2340 "- 2880" "- 540"] by simp
  have 8: "fadd (Finite (- 540)) (Finite 540) = Finite 0"
    using fadd_exact [of "- 540" 540 0] by simp
  have 9: "fadd (Finite 2880) (Finite (- 3600)) = Finite (- 720)"
    using fadd_exact [of 2880 "- 3600" "- 720"] by simp
  have 10: "fadd (Finite (- 720)) (Finite 720) = Finite 0"
    using fadd_exact [of "- 720" 720 0] by simp
  have compensated:
    "py_sum CompensatedSum [Finite 1440, Finite 900, Finite 540, Finite 720] = PyFloat (Finite 3600)"
    by ((simp add: py_sum_def Let_def fsub_def 1 2 3 4 5 6 7 8 9 10 z del: fadd.simps)+)
  show ?thesis by (cases version) (simp_all only: plain compensated)
qed

text \<open>
  C2. With the cities Rome, Italy and Paris, France, three days per city, two people and a
  daily budget of 300, the output section calls the estimator with 3 * 2 = 6 days, and the
  estimate is 1440 for accommodation, 900 for food, 540 for transport and 720 for
  activities, 3600 in total; each is that binary64 value exactly, with either summation.
\<close>

theorem two_city_scenario:
  "budget_section env two_city_session =
     (Inr (),
      [EstimateCall (PyInt 6) (PyInt 300) (PyInt 2),
       WriteAmount (U ''Accommodation'') (PyFloat (Finite 1440)),
       WriteAmount (U ''Food'') (PyFloat (Finite 900)),
       WriteAmount (U ''Transport'') (PyFloat (Finite 540)),
       WriteAmount (U ''Activities'') (PyFloat (Finite 720)),
       WriteTotal (PyFloat (Finite 3600))]) \<and>
   estimate_budget version (PyInt (3 * 2)) (PyInt 300) (PyInt 2) =
     Inr ([(U ''Accommodation'', PyFloat (Finite 1440)), (U ''Food'', PyFloat (Finite 900)),
           (U ''Transport'', PyFloat (Finite 540)), (U ''Activities'', PyFloat (Finite 720))],
          PyFloat (Finite 3600))"
proof -
  have e: "estimate_budget v (PyInt 6) (PyInt 300) (PyInt 2) =
     Inr ([(U ''Accommodation'', PyFloat (Finite 1440)), (U ''Food'', PyFloat (Finite 900)),
           (U ''Transport'', PyFloat (Finite 540)), (U ''Activities'', PyFloat (Finite 720))],
          PyFloat (Finite 3600))" for v
    using weighted_600_04 weighted_600_025 weighted_600_015 weighted_600_02
    by (simp add: estimate_budget_def and_then_def sum_scenario)
  have c: "length (filter (\<lambda>c. strip c \<noteq> []) (splitlines (U ''Rome, Italy\<newline>Paris, France''))) = 2"
    by (simp add: splitlines_def U_Cons U_Nil is_linebreak_def CR_def LF_def strip_def is_whitespace_def)
  have b: "budget_section env two_city_session =
     (Inr (),
      [EstimateCall (PyInt 6) (PyInt 300) (PyInt 2),
       WriteAmount (U ''Accommodation'') (PyFloat (Finite 1440)),
       WriteAmount (U ''Food'') (PyFloat (Finite 900)),
       WriteAmount (U ''Transport'') (PyFloat (Finite 540)),
       WriteAmount (U ''Activities'') (PyFloat (Finite 720)),
       WriteTotal (PyFloat (Finite 3600))])"
    by (simp add: budget_section_def two_city_session_def get_key_def and_then_def as_int_def
        as_str_def c e)
  show ?thesis using b e by simp
qed

section \<open>The estimator outside its preconditions\<close>






















end
